theory Spec2Isabelle
  imports Complex_Main
begin

text \<open>
  A shallow embedding of \<^verbatim>\<open>src/index.ts\<close>, the Google search server: the rate limiter, the
  two type guards, the construction of the upstream request, the formatting of the results
  and the tool handler. State is passed explicitly (the counter object goes in and comes
  out), a \<^verbatim>\<open>throw\<close> is a value \<open>Inl\<close> of a sum type, and what the code reads from outside (the
  clock, the credentials, the upstream, the conversions of the language runtime between
  numbers and text) is an argument.
\<close>

section \<open>Errors\<close>

text \<open>
  Every \<^verbatim>\<open>throw\<close> of \<^verbatim>\<open>src/index.ts\<close>, and every rejection of the runtime calls it awaits,
  is a value of this type. The names follow the taxonomy of the specification. An error
  whose message is put together from data (a \<^verbatim>\<open>TypeError\<close> of the runtime, a rejected network
  call, the two \<^verbatim>\<open>Google API error\<close>s) carries that message.
\<close>

datatype error =
    NoArguments
  | InvalidArguments string
  | RateLimitExceeded
  | TypeError string
  | NetworkError string
  | TransportError string
  | UpstreamApiError string

section \<open>Rate limiter\<close>

text \<open>
  \<^verbatim>\<open>const RATE_LIMIT = { perDay: 100, perSecond: 5 }\<close> and the module-level counter object
  \<^verbatim>\<open>requestCount\<close>. Timestamps are milliseconds since the epoch, which are integers well
  inside the exact range of a double, so they are modelled as \<open>int\<close>.
\<close>

definition perDay :: int where
  "perDay = 100"

definition perSecond :: int where
  "perSecond = 5"

record requestCount =
  daily :: int
  second :: int
  lastSecondReset :: int
  lastDayReset :: int

text \<open>
  The initial value of \<^verbatim>\<open>requestCount\<close>: both counters 0, the windows opened at the two clock
  readings taken when the module is loaded.
\<close>

definition initialCount :: "int \<Rightarrow> int \<Rightarrow> requestCount" where
  "initialCount now todayStart =
     \<lparr>daily = 0, second = 0, lastSecondReset = now, lastDayReset = todayStart\<rparr>"

text \<open>
  \<^verbatim>\<open>checkRateLimit()\<close>. The two clock readings \<^verbatim>\<open>Date.now()\<close> and
  \<^verbatim>\<open>new Date().setHours(0, 0, 0, 0)\<close> are arguments; the mutated counter object is returned
  next to the outcome, also when the function throws (the window maintenance has already
  been written by then).
\<close>

definition checkRateLimit :: "int \<Rightarrow> int \<Rightarrow> requestCount \<Rightarrow> (error + unit) \<times> requestCount" where
  "checkRateLimit now todayStart rc =
     (let rc1 = (if now - lastSecondReset rc > 1000
                 then rc\<lparr>second := 0, lastSecondReset := now\<rparr> else rc);
          rc2 = (if todayStart > lastDayReset rc1
                 then rc1\<lparr>daily := 0, lastDayReset := todayStart\<rparr> else rc1)
      in if second rc2 \<ge> perSecond \<or> daily rc2 \<ge> perDay
         then (Inl RateLimitExceeded, rc2)
         else (Inr (), rc2\<lparr>second := second rc2 + 1, daily := daily rc2 + 1\<rparr>))"

text \<open>
  A sequence of calls of \<^verbatim>\<open>checkRateLimit\<close>, one per pair of clock readings
  \<open>(now, todayStart)\<close>, threading the counter object; the outcomes are collected in order.
\<close>

type_synonym clock = "int \<times> int"

fun checks :: "clock list \<Rightarrow> requestCount \<Rightarrow> (error + unit) list \<times> requestCount" where
  "checks [] rc = ([], rc)"
| "checks (c # cs) rc =
     (let (r, rc') = checkRateLimit (fst c) (snd c) rc;
          (rs, rc'') = checks cs rc'
      in (r # rs, rc''))"

text \<open>
  The value the counters have after the window maintenance of a check, before the caps are
  compared: what the check compares with the caps.
\<close>

definition secondAtCheck :: "int \<Rightarrow> requestCount \<Rightarrow> int" where
  "secondAtCheck now rc = (if now - lastSecondReset rc > 1000 then 0 else second rc)"

definition dailyAtCheck :: "int \<Rightarrow> requestCount \<Rightarrow> int" where
  "dailyAtCheck todayStart rc = (if todayStart > lastDayReset rc then 0 else daily rc)"

text \<open>
  ``The daily counter is below its cap'' at every check of a sequence: at each check the daily
  counter, after the day-window maintenance, is below \<open>perDay\<close>.
\<close>

fun dailyBelowCap :: "clock list \<Rightarrow> requestCount \<Rightarrow> bool" where
  "dailyBelowCap [] rc = True"
| "dailyBelowCap (c # cs) rc =
     (dailyAtCheck (snd c) rc < perDay \<and>
      dailyBelowCap cs (snd (checkRateLimit (fst c) (snd c) rc)))"

text \<open>
  A concrete day of traffic used to exercise the daily cap: one hundred checks, 1001 ms
  apart, all on the day the counter object was created.
\<close>

definition spacedDay :: "clock list" where
  "spacedDay = map (\<lambda>i. (1001 * int i, 0)) [0..<100]"

text \<open>
  A day that ends in a burst: ninety-five checks 1001 ms apart, then five within the last
  second of the day (the day has 86400000 ms).
\<close>

definition lateBurst :: "clock list" where
  "lateBurst = map (\<lambda>i. (1001 * int i, 0)) [0..<95] @ replicate 5 (86399500, 0)"

section \<open>JavaScript values and the coercions the source applies to them\<close>

text \<open>
  The handler receives the tool arguments as an object whose property values are whatever
  the host sent as JSON; the TypeScript types are erased at run time. The model covers the
  primitive JSON values: \<open>null\<close>, booleans, numbers and strings; array- and object-valued
  properties are outside the model. A property that is absent (\<^verbatim>\<open>undefined\<close>) is \<open>None\<close> in
  the object.

  A JSON number is a finite double, and every finite double is a rational number, so a
  number is a \<open>rat\<close>. (The zero of negative sign is not told apart from zero: both are
  falsy, both print as \<open>0\<close>, and \<^verbatim>\<open>Math.min\<close> orders both below 10.)
\<close>

datatype jsval = JNull | JBool bool | JNum rat | JStr string

type_synonym jsargs = "string \<rightharpoonup> jsval"

text \<open>
  A number as \<^verbatim>\<open>ToNumber\<close> and \<^verbatim>\<open>Math.min\<close> give it: finite, \<^verbatim>\<open>NaN\<close>, or one of the two
  infinities (a string such as \<^verbatim>\<open>"Infinity"\<close> converts to one).
\<close>

datatype jsnum = Finite rat | NaN | PosInf | NegInf

definition nl :: string where
  "nl = [CHR 0x0A]"

definition digitChar :: "nat \<Rightarrow> char" where
  "digitChar d = ''0123456789'' ! d"

text \<open>
  The decimal digits of a natural number. The source prints the position of a result item
  with it (\<^verbatim>\<open>${index + 1}\<close>); a position is below \<open>2^32\<close>, where the digits are what the
  template literal prints.
\<close>

fun showNat :: "nat \<Rightarrow> string" where
  "showNat n = (if n < 10 then [digitChar n] else showNat (n div 10) @ [digitChar (n mod 10)])"

declare showNat.simps [simp del]

section \<open>The upstream: request, response, environment\<close>

text \<open>The query parameters set on the URL of the Custom Search endpoint.\<close>

record request =
  param_key :: string
  param_cx :: string
  param_q :: string
  param_num :: string
  param_start :: string
  param_searchType :: "string option"

text \<open>
  A result item of the response body. The declared interfaces are erased at run time, so a
  field the body does not carry is \<open>None\<close> (\<^verbatim>\<open>undefined\<close>). Of \<^verbatim>\<open>image\<close> only
  \<^verbatim>\<open>thumbnailLink\<close> is read.
\<close>

record image_info =
  thumbnailLink :: "string option"

record item =
  item_title :: "string option"
  item_link :: "string option"
  item_snippet :: "string option"
  item_image :: "image_info option"

text \<open>The parsed body: the error object, with its code and message, and the items.\<close>

record payload =
  payload_error :: "(rat \<times> string) option"
  payload_items :: "item list option"

text \<open>
  What the awaited calls give back: one of them (\<^verbatim>\<open>fetch\<close>, \<^verbatim>\<open>response.text()\<close>,
  \<^verbatim>\<open>response.json()\<close>) rejects with an \<^verbatim>\<open>Error\<close> carrying a message; or the response is not
  \<^verbatim>\<open>ok\<close>, with its status, status text and body text; or the body parses to a payload.
\<close>

datatype reply =
    Rejected string
  | NotOk nat string string
  | Parsed payload

text \<open>
  Everything an invocation reads from outside: the two clock readings of
  \<^verbatim>\<open>checkRateLimit\<close>, the two credentials, the behaviour of the upstream for the request
  sent, and the two conversions between numbers and text that belong to the language
  runtime: \<open>stringToNumber\<close> is \<^verbatim>\<open>ToNumber\<close> on a string and \<open>numberToString\<close> is
  \<^verbatim>\<open>Number.prototype.toString\<close> (it prints \<open>10^21\<close> as \<^verbatim>\<open>1e+21\<close> and 2.5 as \<^verbatim>\<open>2.5\<close>). Both are
  taken as they are; nothing is assumed of them.
\<close>

record env =
  dateNow :: int
  dateTodayStart :: int
  GOOGLE_API_KEY :: string
  GOOGLE_CSE_ID :: string
  stringToNumber :: "string \<Rightarrow> jsnum"
  numberToString :: "jsnum \<Rightarrow> string"
  fetch :: "request \<Rightarrow> reply"

text \<open>\<^verbatim>\<open>ToNumber\<close>, the coercion \<^verbatim>\<open>Math.min\<close> applies to its arguments.\<close>

fun toNumber :: "env \<Rightarrow> jsval \<Rightarrow> jsnum" where
  "toNumber e JNull = Finite 0"
| "toNumber e (JBool b) = Finite (if b then 1 else 0)"
| "toNumber e (JNum r) = Finite r"
| "toNumber e (JStr s) = stringToNumber e s"

text \<open>
  \<^verbatim>\<open>Math.min\<close> of two numbers: \<^verbatim>\<open>NaN\<close> when either is, otherwise the smaller, the infinities
  being below and above every finite number.
\<close>

fun mathMin :: "jsnum \<Rightarrow> jsnum \<Rightarrow> jsnum" where
  "mathMin NaN y = NaN"
| "mathMin x NaN = NaN"
| "mathMin NegInf y = NegInf"
| "mathMin x NegInf = NegInf"
| "mathMin PosInf y = y"
| "mathMin x PosInf = x"
| "mathMin (Finite a) (Finite b) = Finite (min a b)"

text \<open>Truthiness, as the condition \<^verbatim>\<open>site && ...\<close> tests it.\<close>

fun truthy :: "jsval \<Rightarrow> bool" where
  "truthy JNull = False"
| "truthy (JBool b) = b"
| "truthy (JNum r) = (r \<noteq> 0)"
| "truthy (JStr s) = (s \<noteq> [])"

text \<open>The text a template literal \<^verbatim>\<open>${v}\<close> inserts for a value.\<close>

fun templateString :: "env \<Rightarrow> jsval \<Rightarrow> string" where
  "templateString e JNull = ''null''"
| "templateString e (JBool b) = (if b then ''true'' else ''false'')"
| "templateString e (JNum r) = numberToString e (Finite r)"
| "templateString e (JStr s) = s"

text \<open>
  The method call \<^verbatim>\<open>v.toString()\<close>: on \<open>null\<close> the property access throws a
  \<^verbatim>\<open>TypeError\<close> (the message is the one Node.js gives).
\<close>

fun toStringMethod :: "env \<Rightarrow> jsval \<Rightarrow> error + string" where
  "toStringMethod e JNull = Inl (TypeError ''Cannot read properties of null (reading 'toString')'')"
| "toStringMethod e v = Inr (templateString e v)"

text \<open>\<^verbatim>\<open>String.prototype.includes\<close>: the second string occurs in the first.\<close>

fun startsWith :: "string \<Rightarrow> string \<Rightarrow> bool" where
  "startsWith s [] = True"
| "startsWith [] (t # ts) = False"
| "startsWith (c # s) (t # ts) = (c = t \<and> startsWith s ts)"

fun includes_js :: "string \<Rightarrow> string \<Rightarrow> bool" where
  "includes_js [] t = (t = [])"
| "includes_js (c # s) t = (startsWith (c # s) t \<or> includes_js s t)"

text \<open>\<^verbatim>\<open>Array.prototype.join\<close>.\<close>

fun join :: "'a list \<Rightarrow> 'a list list \<Rightarrow> 'a list" where
  "join sep [] = []"
| "join sep [x] = x"
| "join sep (x # y # ys) = x @ sep @ join sep (y # ys)"

text \<open>The \<^verbatim>\<open>message\<close> property of each error.\<close>

fun message :: "error \<Rightarrow> string" where
  "message NoArguments = ''No arguments provided''"
| "message (InvalidArguments tool) = ''Invalid arguments for '' @ tool"
| "message RateLimitExceeded = ''Rate limit exceeded''"
| "message (TypeError m) = m"
| "message (NetworkError m) = m"
| "message (TransportError m) = m"
| "message (UpstreamApiError m) = m"

section \<open>Validation\<close>

text \<open>
  The two type guards. Their argument is already known to be a non-null object when they
  are called (the handler has thrown on a missing argument object), so of the four conjuncts
  the last two decide: the property \<open>query\<close> is present and its value is a string.
\<close>

definition isGoogleWebSearchArgs :: "jsargs \<Rightarrow> bool" where
  "isGoogleWebSearchArgs args =
     (''query'' \<in> dom args \<and> (case args ''query'' of Some (JStr s) \<Rightarrow> True | _ \<Rightarrow> False))"

definition isGoogleImageSearchArgs :: "jsargs \<Rightarrow> bool" where
  "isGoogleImageSearchArgs args =
     (''query'' \<in> dom args \<and> (case args ''query'' of Some (JStr s) \<Rightarrow> True | _ \<Rightarrow> False))"

section \<open>Result formatting\<close>

text \<open>Interpolation of a field that may be missing: \<^verbatim>\<open>undefined\<close> prints as its name.\<close>

fun interp :: "string option \<Rightarrow> string" where
  "interp None = ''undefined''"
| "interp (Some s) = s"

text \<open>\<^verbatim>\<open>item.snippet || 'No description'\<close>: a missing or empty snippet gives the fallback.\<close>

fun snippetOr :: "string option \<Rightarrow> string" where
  "snippetOr None = ''No description''"
| "snippetOr (Some s) = (if s = [] then ''No description'' else s)"

text \<open>\<^verbatim>\<open>item.image?.thumbnailLink\<close>.\<close>

fun thumbnailOf :: "item \<Rightarrow> string option" where
  "thumbnailOf it = (case item_image it of None \<Rightarrow> None | Some im \<Rightarrow> thumbnailLink im)"

text \<open>The last line of an image block: the thumbnail when there is a non-empty one.\<close>

fun thumbnailLine :: "string option \<Rightarrow> string" where
  "thumbnailLine None = []"
| "thumbnailLine (Some t) = (if t = [] then [] else ''Thumbnail: '' @ t)"

definition webBlock :: "nat \<Rightarrow> item \<Rightarrow> string" where
  "webBlock index it =
     ''['' @ showNat (index + 1) @ ''] Title: '' @ interp (item_title it) @ nl
     @ ''Description: '' @ interp (item_snippet it) @ nl
     @ ''URL: '' @ interp (item_link it)"

definition imageBlock :: "nat \<Rightarrow> item \<Rightarrow> string" where
  "imageBlock index it =
     ''['' @ showNat (index + 1) @ ''] Title: '' @ interp (item_title it) @ nl
     @ ''Description: '' @ snippetOr (item_snippet it) @ nl
     @ ''Image URL: '' @ interp (item_link it) @ nl
     @ thumbnailLine (thumbnailOf it)"

text \<open>
  The tail of \<^verbatim>\<open>performWebSearch\<close> and of \<^verbatim>\<open>performImageSearch\<close>: the fixed sentence when
  \<^verbatim>\<open>data.items\<close> is missing or empty, otherwise the blocks of
  \<^verbatim>\<open>data.items.map((item, index) => ...)\<close> joined with an empty line.
\<close>

definition formatWebItems :: "item list option \<Rightarrow> string" where
  "formatWebItems items =
     (case items of
        None \<Rightarrow> ''No results found for your query.''
      | Some xs \<Rightarrow>
          if length xs = 0 then ''No results found for your query.''
          else join (nl @ nl) (map (\<lambda>(index, it). webBlock index it) (enumerate 0 xs)))"

definition formatImageItems :: "item list option \<Rightarrow> string" where
  "formatImageItems items =
     (case items of
        None \<Rightarrow> ''No image results found for your query.''
      | Some xs \<Rightarrow>
          if length xs = 0 then ''No image results found for your query.''
          else join (nl @ nl) (map (\<lambda>(index, it). imageBlock index it) (enumerate 0 xs)))"

section \<open>The two searches\<close>

text \<open>The query text of a web search (the \<^verbatim>\<open>site\<close> convenience).\<close>

definition searchQuery :: "env \<Rightarrow> string \<Rightarrow> jsval \<Rightarrow> string" where
  "searchQuery e query site =
     (if truthy site \<and> \<not> includes_js query ''site:''
      then query @ '' site:'' @ templateString e site
      else query)"

text \<open>
  The URL of each search, parameter by parameter, in the order of the source;
  \<open>numParam\<close> is \<^verbatim>\<open>Math.min(count, 10).toString()\<close>. The only step that can throw is
  \<^verbatim>\<open>start.toString()\<close>.
\<close>

definition numParam :: "env \<Rightarrow> jsval \<Rightarrow> string" where
  "numParam e count = numberToString e (mathMin (toNumber e count) (Finite 10))"

definition webRequest :: "env \<Rightarrow> string \<Rightarrow> jsval \<Rightarrow> jsval \<Rightarrow> jsval \<Rightarrow> error + request" where
  "webRequest e query count start site =
     (let num = numParam e count
      in case toStringMethod e start of
           Inl err \<Rightarrow> Inl err
         | Inr st \<Rightarrow>
             Inr \<lparr>param_key = GOOGLE_API_KEY e, param_cx = GOOGLE_CSE_ID e,
                  param_q = searchQuery e query site, param_num = num, param_start = st,
                  param_searchType = None\<rparr>)"

definition imageRequest :: "env \<Rightarrow> string \<Rightarrow> jsval \<Rightarrow> jsval \<Rightarrow> error + request" where
  "imageRequest e query count start =
     (let num = numParam e count
      in case toStringMethod e start of
           Inl err \<Rightarrow> Inl err
         | Inr st \<Rightarrow>
             Inr \<lparr>param_key = GOOGLE_API_KEY e, param_cx = GOOGLE_CSE_ID e,
                  param_q = query, param_num = num, param_start = st,
                  param_searchType = Some ''image''\<rparr>)"

text \<open>
  What follows the \<^verbatim>\<open>fetch\<close>: the three failures, each with the message the source puts
  together, then the formatting of the items, which is the only difference between the two
  searches.
\<close>

definition readReply :: "env \<Rightarrow> (item list option \<Rightarrow> string) \<Rightarrow> reply \<Rightarrow> error + string" where
  "readReply e format rep =
     (case rep of
        Rejected m \<Rightarrow> Inl (NetworkError m)
      | NotOk status statusText body \<Rightarrow>
          Inl (TransportError (''Google API error: '' @ numberToString e (Finite (of_nat status))
                 @ '' '' @ statusText @ nl @ body))
      | Parsed data \<Rightarrow>
          (case payload_error data of
             Some (code, m) \<Rightarrow>
               Inl (UpstreamApiError (''Google API error: '' @ numberToString e (Finite code)
                      @ '' '' @ m))
           | None \<Rightarrow> Inr (format (payload_items data))))"

definition performWebSearch ::
  "env \<Rightarrow> string \<Rightarrow> jsval \<Rightarrow> jsval \<Rightarrow> jsval \<Rightarrow> requestCount \<Rightarrow> (error + string) \<times> requestCount" where
  "performWebSearch e query count start site rc =
     (case checkRateLimit (dateNow e) (dateTodayStart e) rc of
        (Inl err, rc') \<Rightarrow> (Inl err, rc')
      | (Inr _, rc') \<Rightarrow>
          (case webRequest e query count start site of
             Inl err \<Rightarrow> (Inl err, rc')
           | Inr url \<Rightarrow> (readReply e formatWebItems (fetch e url), rc')))"

definition performImageSearch ::
  "env \<Rightarrow> string \<Rightarrow> jsval \<Rightarrow> jsval \<Rightarrow> requestCount \<Rightarrow> (error + string) \<times> requestCount" where
  "performImageSearch e query count start rc =
     (case checkRateLimit (dateNow e) (dateTodayStart e) rc of
        (Inl err, rc') \<Rightarrow> (Inl err, rc')
      | (Inr _, rc') \<Rightarrow>
          (case imageRequest e query count start of
             Inl err \<Rightarrow> (Inl err, rc')
           | Inr url \<Rightarrow> (readReply e formatImageItems (fetch e url), rc')))"

section \<open>The tool handler\<close>

record tool_result =
  result_text :: string
  result_isError :: bool

text \<open>Destructuring with a default: the default stands in for an absent property only.\<close>

definition argOr :: "jsargs \<Rightarrow> string \<Rightarrow> jsval \<Rightarrow> jsval" where
  "argOr args k d = (case args k of None \<Rightarrow> d | Some v \<Rightarrow> v)"

definition searched :: "(error + string) \<times> requestCount \<Rightarrow> (error + tool_result) \<times> requestCount" where
  "searched out =
     (case out of
        (Inl err, rc') \<Rightarrow> (Inl err, rc')
      | (Inr results, rc') \<Rightarrow> (Inr \<lparr>result_text = results, result_isError = False\<rparr>, rc'))"

text \<open>
  The body of the \<^verbatim>\<open>try\<close> block of the handler: \<open>Inl\<close> is a thrown error. In each tool's case
  the inner \<open>case\<close> is the destructuring of \<open>query\<close> from the narrowed arguments; its second
  branch is never taken after the guard has passed.
\<close>

definition tryBlock ::
  "env \<Rightarrow> string \<Rightarrow> jsargs option \<Rightarrow> requestCount \<Rightarrow> (error + tool_result) \<times> requestCount" where
  "tryBlock e name arguments rc =
     (case arguments of
        None \<Rightarrow> (Inl NoArguments, rc)
      | Some args \<Rightarrow>
          if name = ''google_web_search'' then
            (if \<not> isGoogleWebSearchArgs args
             then (Inl (InvalidArguments ''google_web_search''), rc)
             else (case args ''query'' of
                     Some (JStr query) \<Rightarrow>
                       searched (performWebSearch e query (argOr args ''count'' (JNum 5))
                                   (argOr args ''start'' (JNum 1)) (argOr args ''site'' (JStr [])) rc)
                   | _ \<Rightarrow> (Inl (InvalidArguments ''google_web_search''), rc)))
          else if name = ''google_image_search'' then
            (if \<not> isGoogleImageSearchArgs args
             then (Inl (InvalidArguments ''google_image_search''), rc)
             else (case args ''query'' of
                     Some (JStr query) \<Rightarrow>
                       searched (performImageSearch e query (argOr args ''count'' (JNum 5))
                                   (argOr args ''start'' (JNum 1)) rc)
                   | _ \<Rightarrow> (Inl (InvalidArguments ''google_image_search''), rc)))
          else (Inr \<lparr>result_text = ''Unknown tool: '' @ name, result_isError = True\<rparr>, rc))"

text \<open>
  The handler registered for \<^verbatim>\<open>CallToolRequestSchema\<close>: the \<^verbatim>\<open>try\<close> block and its
  \<^verbatim>\<open>catch\<close>, which turns any thrown error into an error result.
\<close>

definition callToolHandler ::
  "env \<Rightarrow> string \<Rightarrow> jsargs option \<Rightarrow> requestCount \<Rightarrow> tool_result \<times> requestCount" where
  "callToolHandler e name arguments rc =
     (case tryBlock e name arguments rc of
        (Inl err, rc') \<Rightarrow> (\<lparr>result_text = ''Error: '' @ message err, result_isError = True\<rparr>, rc')
      | (Inr res, rc') \<Rightarrow> (res, rc'))"

section \<open>Reading the rendered text\<close>

text \<open>
  The lines of a text: the pieces between its line feeds, as \<^verbatim>\<open>split("\n")\<close> gives them.
\<close>

fun linesOf :: "string \<Rightarrow> string list" where
  "linesOf [] = [[]]"
| "linesOf (c # cs) =
     (if c = CHR 0x0A then [] # linesOf cs
      else (case linesOf cs of [] \<Rightarrow> [[c]] | l # ls \<Rightarrow> (c # l) # ls))"

text \<open>The number of line feeds in a text.\<close>

definition lineFeeds :: "string \<Rightarrow> nat" where
  "lineFeeds s = count_list s (CHR 0x0A)"

text \<open>
  A text \<open>t\<close> stands for a field of an item: it is the value of the field when the payload
  supplies one, and a text without a line feed when the field is missing.
\<close>

definition printed :: "string option \<Rightarrow> string \<Rightarrow> bool" where
  "printed field t = (case field of None \<Rightarrow> lineFeeds t = 0 | Some s \<Rightarrow> t = s)"

text \<open>The number a text of decimal digits denotes, to read the number of a block back.\<close>

definition digitValue :: "char \<Rightarrow> nat" where
  "digitValue c = length (takeWhile (\<lambda>d. d \<noteq> c) ''0123456789'')"

definition readNat :: "string \<Rightarrow> nat" where
  "readNat s = foldl (\<lambda>a c. 10 * a + digitValue c) 0 s"

section \<open>What the handler answers for the outcome of a search\<close>

text \<open>
  The result the handler returns when a search has run: the text with \<open>isError: false\<close>, or
  the caught error as \<open>Error: <message>\<close> with \<open>isError: true\<close>.
\<close>

definition answer :: "(error + string) \<times> requestCount \<Rightarrow> tool_result \<times> requestCount" where
  "answer out =
     (case out of
        (Inl err, rc') \<Rightarrow> (\<lparr>result_text = ''Error: '' @ message err, result_isError = True\<rparr>, rc')
      | (Inr results, rc') \<Rightarrow> (\<lparr>result_text = results, result_isError = False\<rparr>, rc'))"

section \<open>Concrete inputs\<close>

text \<open>
  An environment for the examples. Its upstream answers every request with one item echoing
  the request: the title is the query text, the snippet is the \<open>num\<close> parameter and the
  link is the \<open>start\<close> parameter. Its two conversions are those of the runtime on the values
  the examples use and on no others: an integer of magnitude below \<open>2^53\<close> is printed in
  decimal digits, \<^verbatim>\<open>NaN\<close> and the infinities by their names, and any other number is
  answered with the empty text; the strings the examples convert to numbers hold no
  number, and convert to \<^verbatim>\<open>NaN\<close>.
\<close>

definition showInt :: "int \<Rightarrow> string" where
  "showInt i = (if i < 0 then ''-'' @ showNat (nat (- i)) else showNat (nat i))"

fun exampleToString :: "jsnum \<Rightarrow> string" where
  "exampleToString (Finite r) =
     (if r = of_int \<lfloor>r\<rfloor> \<and> \<bar>r\<bar> < 2 ^ 53 then showInt \<lfloor>r\<rfloor> else [])"
| "exampleToString NaN = ''NaN''"
| "exampleToString PosInf = ''Infinity''"
| "exampleToString NegInf = ''-Infinity''"

definition echoFetch :: "request \<Rightarrow> reply" where
  "echoFetch url =
     Parsed \<lparr>payload_error = None,
             payload_items = Some [\<lparr>item_title = Some (param_q url),
                                    item_link = Some (param_start url),
                                    item_snippet = Some (param_num url),
                                    item_image = None\<rparr>]\<rparr>"

definition echoEnv :: env where
  "echoEnv =
     \<lparr>dateNow = 10, dateTodayStart = 0, GOOGLE_API_KEY = ''key'', GOOGLE_CSE_ID = ''cx'',
      stringToNumber = (\<lambda>s. NaN), numberToString = exampleToString, fetch = echoFetch\<rparr>"

definition threeItems :: "item list" where
  "threeItems =
     [\<lparr>item_title = Some ''First'', item_link = Some ''https://a.example/1'',
       item_snippet = Some ''One'', item_image = None\<rparr>,
      \<lparr>item_title = Some ''Second'', item_link = Some ''https://b.example/2'',
       item_snippet = Some ''Two'',
       item_image = Some \<lparr>thumbnailLink = Some ''https://t.example/2.png''\<rparr>\<rparr>,
      \<lparr>item_title = Some ''Third'', item_link = Some ''https://c.example/3'',
       item_snippet = Some ''Three'',
       item_image = Some \<lparr>thumbnailLink = Some ''https://t.example/3.png''\<rparr>\<rparr>]"

definition noSnippet :: item where
  "noSnippet =
     \<lparr>item_title = Some ''Dog'', item_link = Some ''https://a.example/dog.png'',
      item_snippet = None,
      item_image = Some \<lparr>thumbnailLink = Some ''https://t.example/dog.png''\<rparr>\<rparr>"

definition bareImage :: item where
  "bareImage =
     \<lparr>item_title = Some ''Cat'', item_link = Some ''https://a.example/cat.png'',
      item_snippet = Some ''A cat'', item_image = None\<rparr>"

section \<open>One check\<close>

lemma checkRateLimit_outcome:
  "fst (checkRateLimit now today rc) =
     (if secondAtCheck now rc \<ge> perSecond \<or> dailyAtCheck today rc \<ge> perDay
      then Inl RateLimitExceeded else Inr ())"
  by (simp add: checkRateLimit_def secondAtCheck_def dailyAtCheck_def Let_def)

lemma checkRateLimit_second:
  "second (snd (checkRateLimit now today rc)) =
     (if fst (checkRateLimit now today rc) = Inr ()
      then secondAtCheck now rc + 1 else secondAtCheck now rc)"
  by (simp add: checkRateLimit_def secondAtCheck_def dailyAtCheck_def Let_def)

lemma checkRateLimit_daily:
  "daily (snd (checkRateLimit now today rc)) =
     (if fst (checkRateLimit now today rc) = Inr ()
      then dailyAtCheck today rc + 1 else dailyAtCheck today rc)"
  by (simp add: checkRateLimit_def secondAtCheck_def dailyAtCheck_def Let_def)

lemma checkRateLimit_lastSecondReset:
  "lastSecondReset (snd (checkRateLimit now today rc)) =
     (if now - lastSecondReset rc > 1000 then now else lastSecondReset rc)"
  by (simp add: checkRateLimit_def Let_def)

lemma checkRateLimit_lastDayReset:
  "lastDayReset (snd (checkRateLimit now today rc)) =
     (if today > lastDayReset rc then today else lastDayReset rc)"
  by (simp add: checkRateLimit_def Let_def)

text \<open>
  Claim C3. Every check preserves the bounds \<open>second \<le> 5\<close> and \<open>daily \<le> 100\<close>; a call is
  admitted only while both counters, after the window maintenance, are strictly below their
  caps; the two window starts never move backward (whatever the clock readings are, so in
  particular for non-decreasing ones); when the check fails with \<open>RateLimitExceeded\<close> both
  counters keep the value the window maintenance left (no increment), and when it succeeds
  both are that value plus one. No other outcome exists.
\<close>

theorem checkRateLimit_invariant:
  assumes "second rc \<le> perSecond" and "daily rc \<le> perDay"
    and "checkRateLimit now today rc = (r, rc')"
  shows "second rc' \<le> 5 \<and> daily rc' \<le> 100
    \<and> lastSecondReset rc \<le> lastSecondReset rc' \<and> lastDayReset rc \<le> lastDayReset rc'
    \<and> (r = Inl RateLimitExceeded \<or> r = Inr ())
    \<and> (r = Inl RateLimitExceeded \<longrightarrow>
          second rc' = secondAtCheck now rc \<and> daily rc' = dailyAtCheck today rc)
    \<and> (r = Inr () \<longrightarrow>
          secondAtCheck now rc < 5 \<and> dailyAtCheck today rc < 100
          \<and> second rc' = secondAtCheck now rc + 1 \<and> daily rc' = dailyAtCheck today rc + 1)"
proof -
  have r: "r = fst (checkRateLimit now today rc)" and rc': "rc' = snd (checkRateLimit now today rc)"
    using assms(3) by simp_all
  have s5: "secondAtCheck now rc \<le> 5" and d100: "dailyAtCheck today rc \<le> 100"
    using assms(1,2) by (simp_all add: secondAtCheck_def dailyAtCheck_def perSecond_def perDay_def)
  show ?thesis
    unfolding r rc' checkRateLimit_second checkRateLimit_daily
      checkRateLimit_lastSecondReset checkRateLimit_lastDayReset
    using s5 d100
    by (simp add: checkRateLimit_outcome perSecond_def perDay_def)
qed

theorem checkRateLimit_invariant_witness:
  "second (initialCount 0 0) \<le> perSecond \<and> daily (initialCount 0 0) \<le> perDay
   \<and> checkRateLimit 10 0 (initialCount 0 0)
       = (Inr (), \<lparr>daily = 1, second = 1, lastSecondReset = 0, lastDayReset = 0\<rparr>)
   \<and> secondAtCheck 10 (initialCount 0 0) < 5 \<and> dailyAtCheck 0 (initialCount 0 0) < 100"
proof -
  have a: "second (initialCount 0 0) \<le> perSecond" and b: "daily (initialCount 0 0) \<le> perDay"
    by (simp_all add: initialCount_def perSecond_def perDay_def)
  have c: "checkRateLimit 10 0 (initialCount 0 0)
       = (Inr (), \<lparr>daily = 1, second = 1, lastSecondReset = 0, lastDayReset = 0\<rparr>)"
    by (simp add: checkRateLimit_def initialCount_def perSecond_def perDay_def)
  show ?thesis
    using checkRateLimit_invariant [OF a b c] a b c by simp
qed

section \<open>Sequences of checks\<close>

lemma checks_Cons:
  "checks (c # cs) rc =
     (fst (checkRateLimit (fst c) (snd c) rc) # fst (checks cs (snd (checkRateLimit (fst c) (snd c) rc))),
      snd (checks cs (snd (checkRateLimit (fst c) (snd c) rc))))"
  by (simp add: Let_def split: prod.splits)

lemma checks_length: "length (fst (checks cs rc)) = length cs"
  by (induction cs arbitrary: rc) (simp_all add: checks_Cons del: checks.simps(2))

lemma dailyBelowCap_append:
  "dailyBelowCap (cs @ ds) rc = (dailyBelowCap cs rc \<and> dailyBelowCap ds (snd (checks cs rc)))"
  by (induction cs arbitrary: rc) (simp_all add: checks_Cons del: checks.simps(2))

lemma checks_window:
  assumes "\<forall>c\<in>set cs. fst c - lastSecondReset rc \<le> 1000"
    and "dailyBelowCap cs rc"
  shows "(\<forall>i<length cs. fst (checks cs rc) ! i =
            (if second rc + int i < perSecond then Inr () else Inl RateLimitExceeded))
       \<and> lastSecondReset (snd (checks cs rc)) = lastSecondReset rc
       \<and> second (snd (checks cs rc)) = (if second rc \<ge> perSecond then second rc else min perSecond (second rc + int (length cs)))"
  using assms
proof (induction cs arbitrary: rc)
  case Nil
  then show ?case by simp
next
  case (Cons c cs)
  let ?rc = "snd (checkRateLimit (fst c) (snd c) rc)"
  have win: "\<not> fst c - lastSecondReset rc > 1000" using Cons.prems(1) by simp
  have sec: "secondAtCheck (fst c) rc = second rc" using win by (simp add: secondAtCheck_def)
  have day: "dailyAtCheck (snd c) rc < perDay" using Cons.prems(2) by simp
  have out: "fst (checkRateLimit (fst c) (snd c) rc) = (if second rc < perSecond then Inr () else Inl RateLimitExceeded)"
    using day by (simp add: checkRateLimit_outcome sec)
  have sec': "second ?rc = (if second rc < perSecond then second rc + 1 else second rc)"
    by (simp add: checkRateLimit_second out sec)
  have last': "lastSecondReset ?rc = lastSecondReset rc"
    using win by (simp add: checkRateLimit_lastSecondReset)
  have ih: "(\<forall>i<length cs. fst (checks cs ?rc) ! i =
            (if second ?rc + int i < perSecond then Inr () else Inl RateLimitExceeded))
       \<and> lastSecondReset (snd (checks cs ?rc)) = lastSecondReset ?rc
       \<and> second (snd (checks cs ?rc)) = (if second ?rc \<ge> perSecond then second ?rc else min perSecond (second ?rc + int (length cs)))"
    apply (rule Cons.IH)
    using Cons.prems sec' last' by auto
  show ?case
    unfolding checks_Cons fst_conv snd_conv
    using ih out sec' last'
    by (auto simp: nth_Cons perSecond_def split: nat.splits)
qed

lemma checks_same_day:
  assumes "\<forall>c\<in>set cs. snd c \<le> lastDayReset rc"
  shows "lastDayReset (snd (checks cs rc)) = lastDayReset rc
       \<and> daily (snd (checks cs rc)) = daily rc + int (count_list (fst (checks cs rc)) (Inr ()))"
  using assms
proof (induction cs arbitrary: rc)
  case Nil
  then show ?case by simp
next
  case (Cons c cs)
  let ?rc = "snd (checkRateLimit (fst c) (snd c) rc)"
  have same: "\<not> snd c > lastDayReset rc" using Cons.prems by simp
  have last': "lastDayReset ?rc = lastDayReset rc"
    using same by (simp add: checkRateLimit_lastDayReset)
  have day': "daily ?rc = (if fst (checkRateLimit (fst c) (snd c) rc) = Inr () then daily rc + 1 else daily rc)"
    using same by (simp add: checkRateLimit_daily dailyAtCheck_def)
  have ih: "lastDayReset (snd (checks cs ?rc)) = lastDayReset ?rc
       \<and> daily (snd (checks cs ?rc)) = daily ?rc + int (count_list (fst (checks cs ?rc)) (Inr ()))"
    by (rule Cons.IH) (use Cons.prems last' in simp)
  show ?case
    unfolding checks_Cons fst_conv snd_conv
    using ih last' day' by simp
qed

text \<open>
  The bounds and the direction of the windows are kept along every sequence of checks, so
  they hold for every counter object reached from the initial one.
\<close>

lemma checks_within_caps:
  assumes "second rc \<le> perSecond" and "daily rc \<le> perDay"
  shows "second (snd (checks cs rc)) \<le> perSecond \<and> daily (snd (checks cs rc)) \<le> perDay
       \<and> lastSecondReset rc \<le> lastSecondReset (snd (checks cs rc))
       \<and> lastDayReset rc \<le> lastDayReset (snd (checks cs rc))"
  using assms
proof (induction cs arbitrary: rc)
  case Nil
  then show ?case by simp
next
  case (Cons c cs)
  let ?rc = "snd (checkRateLimit (fst c) (snd c) rc)"
  have s: "second ?rc \<le> perSecond"
    using Cons.prems(1)
    by (simp add: checkRateLimit_second checkRateLimit_outcome secondAtCheck_def
        perSecond_def perDay_def)
  have d: "daily ?rc \<le> perDay"
    using Cons.prems(2)
    by (simp add: checkRateLimit_daily checkRateLimit_outcome dailyAtCheck_def
        perSecond_def perDay_def)
  have l: "lastSecondReset rc \<le> lastSecondReset ?rc" "lastDayReset rc \<le> lastDayReset ?rc"
    by (simp_all add: checkRateLimit_lastSecondReset checkRateLimit_lastDayReset)
  show ?case
    unfolding checks_Cons snd_conv
    using Cons.IH [OF s d] l by simp
qed

text \<open>
  Claim C1. Take any sequence of checks that all fall within the stored second window (each
  reading of the clock at most 1000 ms after the stored window start), the daily counter
  being below its cap at every check. The second counter counts the checks already admitted
  in the window (0 for a fresh window), and the check at position \<open>i\<close> of the sequence
  succeeds exactly while the counter plus \<open>i\<close> is below 5: from a fresh window the first
  five checks succeed and every further check of the sequence fails with
  \<open>RateLimitExceeded\<close>. A following check more than 1000 ms after the window start is
  admitted, with the second counter restarted (it reads 1 afterwards) and the window start
  moved to the time of that check.
\<close>

theorem second_window:
  assumes "\<forall>c\<in>set cs. fst c - lastSecondReset rc \<le> 1000"
    and "fst c' - lastSecondReset rc > 1000"
    and "dailyBelowCap (cs @ [c']) rc"
    and "checks cs rc = (rs, rc1)"
    and "checkRateLimit (fst c') (snd c') rc1 = (r, rc2)"
  shows "length rs = length cs
    \<and> (\<forall>i<length cs. rs ! i =
          (if second rc + int i < 5 then Inr () else Inl RateLimitExceeded))
    \<and> (second rc = 0 \<longrightarrow>
          (\<forall>i<length cs. rs ! i = (if i < 5 then Inr () else Inl RateLimitExceeded)))
    \<and> r = Inr () \<and> second rc2 = 1 \<and> lastSecondReset rc2 = fst c'"
proof -
  have rs: "rs = fst (checks cs rc)" and rc1: "rc1 = snd (checks cs rc)"
    using assms(4) by simp_all
  have r: "r = fst (checkRateLimit (fst c') (snd c') rc1)"
    and rc2: "rc2 = snd (checkRateLimit (fst c') (snd c') rc1)"
    using assms(5) by simp_all
  have db: "dailyBelowCap cs rc" and dl: "dailyAtCheck (snd c') rc1 < perDay"
    using assms(3) unfolding rc1 by (simp_all add: dailyBelowCap_append)
  have w: "(\<forall>i<length cs. rs ! i =
            (if second rc + int i < perSecond then Inr () else Inl RateLimitExceeded))
       \<and> lastSecondReset rc1 = lastSecondReset rc"
    unfolding rs rc1 using checks_window [OF assms(1) db] by simp
  have el: "fst c' - lastSecondReset rc1 > 1000"
    using w assms(2) by simp
  have sec: "secondAtCheck (fst c') rc1 = 0"
    using el by (simp add: secondAtCheck_def)
  have out: "r = Inr ()"
    unfolding r using dl by (simp add: checkRateLimit_outcome sec perSecond_def)
  have "second rc2 = 1"
    unfolding rc2 checkRateLimit_second using out r sec by simp
  moreover have "lastSecondReset rc2 = fst c'"
    unfolding rc2 checkRateLimit_lastSecondReset using el by simp
  moreover have "length rs = length cs"
    unfolding rs by (rule checks_length)
  moreover have "\<forall>i<length cs. rs ! i =
          (if second rc + int i < 5 then Inr () else Inl RateLimitExceeded)"
    using w by (simp add: perSecond_def)
  ultimately show ?thesis using out by simp
qed

theorem second_window_witness:
  "checks [(100, 0), (200, 0), (300, 0), (400, 0), (1000, 0), (1000, 0), (700, 0)] (initialCount 0 0)
     = ([Inr (), Inr (), Inr (), Inr (), Inr (), Inl RateLimitExceeded, Inl RateLimitExceeded],
        \<lparr>daily = 5, second = 5, lastSecondReset = 0, lastDayReset = 0\<rparr>)
   \<and> checkRateLimit 1001 0 \<lparr>daily = 5, second = 5, lastSecondReset = 0, lastDayReset = 0\<rparr>
     = (Inr (), \<lparr>daily = 6, second = 1, lastSecondReset = 1001, lastDayReset = 0\<rparr>)"
proof -
  let ?cs = "[(100, 0), (200, 0), (300, 0), (400, 0), (1000, 0), (1000, 0), (700, 0)] :: clock list"
  let ?rc1 = "\<lparr>daily = 5, second = 5, lastSecondReset = 0, lastDayReset = 0\<rparr>"
  have b: "\<forall>c\<in>set ?cs. fst c - lastSecondReset (initialCount 0 0) \<le> 1000"
    by (simp add: initialCount_def)
  have c: "fst (1001::int, 0::int) - lastSecondReset (initialCount 0 0) > 1000"
    by (simp add: initialCount_def)
  have d: "dailyBelowCap (?cs @ [(1001, 0)]) (initialCount 0 0)"
    by (simp add: initialCount_def checkRateLimit_def dailyAtCheck_def perDay_def perSecond_def)
  have e: "checks ?cs (initialCount 0 0)
     = ([Inr (), Inr (), Inr (), Inr (), Inr (), Inl RateLimitExceeded, Inl RateLimitExceeded], ?rc1)"
    by (simp add: initialCount_def checkRateLimit_def perDay_def perSecond_def)
  have f: "checkRateLimit (fst (1001::int, 0::int)) (snd (1001::int, 0::int)) ?rc1
     = (Inr (), \<lparr>daily = 6, second = 1, lastSecondReset = 1001, lastDayReset = 0\<rparr>)"
    by (simp add: checkRateLimit_def perDay_def perSecond_def)
  show ?thesis
    using second_window [OF b c d e f] e f by simp
qed

text \<open>
  Counterexample to claim C2 as stated: a day on which 100 checks are admitted, the last
  five of them at 86399500; the check at 86400000, whose start-of-day reading is strictly
  later than the stored day-window start, has its daily counter reset to 0 and is still
  rejected, because the second window opened at 86399500 is full.
\<close>

theorem rollover_into_full_second_window:
  "checks lateBurst (initialCount 0 0)
     = (replicate 100 (Inr ()),
        \<lparr>daily = 100, second = 5, lastSecondReset = 86399500, lastDayReset = 0\<rparr>)
   \<and> lastDayReset \<lparr>daily = 100, second = 5, lastSecondReset = 86399500, lastDayReset = 0\<rparr>
       < 86400000
   \<and> checkRateLimit 86400000 86400000
         \<lparr>daily = 100, second = 5, lastSecondReset = 86399500, lastDayReset = 0\<rparr>
       = (Inl RateLimitExceeded,
          \<lparr>daily = 0, second = 5, lastSecondReset = 86399500, lastDayReset = 86400000\<rparr>)"
proof -
  have "checks lateBurst (initialCount 0 0)
     = (replicate 100 (Inr ()),
        \<lparr>daily = 100, second = 5, lastSecondReset = 86399500, lastDayReset = 0\<rparr>)"
    by code_simp
  moreover have "checkRateLimit 86400000 86400000
         \<lparr>daily = 100, second = 5, lastSecondReset = 86399500, lastDayReset = 0\<rparr>
       = (Inl RateLimitExceeded,
          \<lparr>daily = 0, second = 5, lastSecondReset = 86399500, lastDayReset = 86400000\<rparr>)"
    by (simp add: checkRateLimit_def perSecond_def perDay_def)
  ultimately show ?thesis by simp
qed

text \<open>
  Claim C2, as amended. Take a counter object and a sequence of checks on the day of its day
  window (no start-of-day reading later than the stored day-window start) such that the
  admissions the daily counter already records (0 at the start of a day) and those of the
  sequence are 100 together. Then every further check on that day fails with
  \<open>RateLimitExceeded\<close>, whatever the time of the check and the second window are, and leaves
  the daily counter untouched. For any counter object and any check whose start-of-day
  reading is strictly later than the stored day-window start, the daily counter is reset to
  0 and the day-window start is moved to that reading; the check is admitted exactly when
  the second counter, after the second-window maintenance, is below 5, and the daily counter
  then reads 1 (it reads 0 when a full second window rejects the check).
\<close>

theorem daily_cap:
  assumes "\<forall>c\<in>set cs. snd c \<le> lastDayReset rc"
    and "checks cs rc = (rs, rc1)"
    and "daily rc + int (count_list rs (Inr ())) = perDay"
  shows "(\<forall>now today. today \<le> lastDayReset rc \<longrightarrow>
            checkRateLimit now today rc1 = (Inl RateLimitExceeded,
               rc1\<lparr>second := secondAtCheck now rc1,
                   lastSecondReset := (if now - lastSecondReset rc1 > 1000 then now
                                       else lastSecondReset rc1)\<rparr>))
    \<and> (\<forall>now today rc'. today > lastDayReset rc' \<longrightarrow>
            dailyAtCheck today rc' = 0
          \<and> lastDayReset (snd (checkRateLimit now today rc')) = today
          \<and> (fst (checkRateLimit now today rc') = Inr ()
               \<longleftrightarrow> secondAtCheck now rc' < perSecond)
          \<and> daily (snd (checkRateLimit now today rc'))
               = (if secondAtCheck now rc' < perSecond then 1 else 0))"
proof -
  have rc1: "rc1 = snd (checks cs rc)" and rs: "rs = fst (checks cs rc)"
    using assms(2) by simp_all
  have d: "daily rc1 = perDay" and l: "lastDayReset rc1 = lastDayReset rc"
    using checks_same_day [OF assms(1)] assms(3) unfolding rc1 rs by simp_all
  have A: "checkRateLimit now today rc1 = (Inl RateLimitExceeded,
               rc1\<lparr>second := secondAtCheck now rc1,
                   lastSecondReset := (if now - lastSecondReset rc1 > 1000 then now
                                       else lastSecondReset rc1)\<rparr>)"
    if "today \<le> lastDayReset rc" for now today
    using that d l by (simp add: checkRateLimit_def secondAtCheck_def Let_def)
  have B: "dailyAtCheck today rc' = 0
          \<and> lastDayReset (snd (checkRateLimit now today rc')) = today
          \<and> (fst (checkRateLimit now today rc') = Inr ()
               \<longleftrightarrow> secondAtCheck now rc' < perSecond)
          \<and> daily (snd (checkRateLimit now today rc'))
               = (if secondAtCheck now rc' < perSecond then 1 else 0)"
    if "today > lastDayReset rc'" for now today rc'
    using that
    by (simp add: checkRateLimit_daily checkRateLimit_lastDayReset checkRateLimit_outcome
        dailyAtCheck_def perDay_def)
  show ?thesis using A B by blast
qed

lemma spacedDay_run:
  "checks spacedDay (initialCount 0 0)
     = (replicate 100 (Inr ()),
        \<lparr>daily = 100, second = 1, lastSecondReset = 99099, lastDayReset = 0\<rparr>)"
  by code_simp

theorem daily_cap_witness:
  "checks spacedDay (initialCount 0 0)
     = (replicate 100 (Inr ()),
        \<lparr>daily = 100, second = 1, lastSecondReset = 99099, lastDayReset = 0\<rparr>)
   \<and> fst (checkRateLimit 200000 0
         \<lparr>daily = 100, second = 1, lastSecondReset = 99099, lastDayReset = 0\<rparr>)
       = Inl RateLimitExceeded
   \<and> checkRateLimit 86400000 86400000
         \<lparr>daily = 100, second = 1, lastSecondReset = 99099, lastDayReset = 0\<rparr>
       = (Inr (), \<lparr>daily = 1, second = 1, lastSecondReset = 86400000, lastDayReset = 86400000\<rparr>)"
proof -
  let ?rc1 = "\<lparr>daily = 100, second = 1, lastSecondReset = 99099, lastDayReset = 0\<rparr>"
  have b: "\<forall>c\<in>set spacedDay. snd c \<le> lastDayReset (initialCount 0 0)"
    by (simp add: spacedDay_def initialCount_def)
  have c: "checks spacedDay (initialCount 0 0) = (replicate 100 (Inr ()), ?rc1)"
    by (rule spacedDay_run)
  have "int (count_list (replicate 100 (Inr () :: error + unit)) (Inr ())) = perDay"
    by code_simp
  then have d: "daily (initialCount 0 0)
      + int (count_list (replicate 100 (Inr () :: error + unit)) (Inr ())) = perDay"
    by (simp add: initialCount_def)
  note th = daily_cap [OF b c d]
  have "(0::int) \<le> lastDayReset (initialCount 0 0)"
    by (simp add: initialCount_def)
  with th have e: "fst (checkRateLimit 200000 0 ?rc1) = Inl RateLimitExceeded"
    by simp
  have "(86400000::int) > lastDayReset ?rc1"
    by simp
  with th have "fst (checkRateLimit 86400000 86400000 ?rc1) = Inr ()
      \<longleftrightarrow> secondAtCheck 86400000 ?rc1 < perSecond"
    by blast
  moreover have "checkRateLimit 86400000 86400000 ?rc1
       = (Inr (), \<lparr>daily = 1, second = 1, lastSecondReset = 86400000, lastDayReset = 86400000\<rparr>)"
    by (simp add: checkRateLimit_def perDay_def perSecond_def)
  ultimately show ?thesis using c e by simp
qed

section \<open>The rendered text\<close>

lemma map_enumerate:
  "map (\<lambda>(index, it). f index it) (enumerate 0 xs) = map (\<lambda>k. f k (xs ! k)) [0..<length xs]"
  by (rule nth_equalityI) (simp_all add: nth_enumerate_eq)

text \<open>
  \<open>join\<close> written out: every element in order, each but the last followed by the
  separator.
\<close>

lemma join_map_upt:
  "join sep (map f [i..<j])
     = concat (map (\<lambda>k. f k @ (if k + 1 < j then sep else [])) [i..<j])"
proof (induction "j - i" arbitrary: i)
  case 0
  then show ?case by simp
next
  case (Suc d)
  then have ij: "i < j" and d: "d = j - Suc i" by simp_all
  have unfold: "[i..<j] = i # [Suc i..<j]"
    using ij by (simp add: upt_rec)
  show ?case
  proof (cases "Suc i < j")
    case True
    then have "[Suc i..<j] = Suc i # [Suc (Suc i)..<j]"
      by (simp add: upt_rec)
    then have "join sep (map f [i..<j]) = f i @ sep @ join sep (map f [Suc i..<j])"
      unfolding unfold by simp
    then show ?thesis
      using Suc.hyps(1) [OF d] True unfolding unfold by simp
  next
    case False
    then have "[Suc i..<j] = []" by simp
    then show ?thesis
      using False unfolding unfold by simp
  qed
qed

lemma printed_interp: "printed field (interp field)"
  by (cases field) (simp_all add: printed_def lineFeeds_def)

lemma lineFeeds_append: "lineFeeds (a @ b) = lineFeeds a + lineFeeds b"
  by (induction a) (simp_all add: lineFeeds_def)

lemma lineFeeds_nl: "lineFeeds nl = 1"
  by (simp add: lineFeeds_def nl_def)

lemma digitChar_no_lineFeed: "d < 10 \<Longrightarrow> digitChar d \<noteq> CHR 0x0A"
proof -
  assume "d < 10"
  then have "digitChar d \<in> set ''0123456789''"
    unfolding digitChar_def by (intro nth_mem) simp
  then show ?thesis by auto
qed

lemma lineFeeds_showNat: "lineFeeds (showNat n) = 0"
proof (induction n rule: showNat.induct)
  case (1 n)
  show ?case
  proof (cases "n < 10")
    case True
    then show ?thesis
      using digitChar_no_lineFeed [of n] by (simp add: showNat.simps [of n] lineFeeds_def)
  next
    case False
    then have "lineFeeds (showNat (n div 10)) = 0"
      using 1 by simp
    then show ?thesis
      using False digitChar_no_lineFeed [of "n mod 10"]
      by (simp add: showNat.simps [of n] lineFeeds_append) (simp add: lineFeeds_def)
  qed
qed

text \<open>The digits printed for a number denote that number.\<close>

lemma digitValue_digitChar: "d < 10 \<Longrightarrow> digitValue (digitChar d) = d"
proof -
  assume "d < 10"
  then have "d \<in> set [0, 1, 2, 3, 4, 5, 6, 7, 8, 9]"
    by (simp add: numeral_eq_Suc less_Suc_eq)
  moreover have "\<forall>d\<in>set [0, 1, 2, 3, 4, 5, 6, 7, 8, 9]. digitValue (digitChar d) = d"
    by (simp add: digitValue_def digitChar_def)
  ultimately show ?thesis by blast
qed

lemma readNat_snoc: "readNat (s @ [c]) = 10 * readNat s + digitValue c"
  by (simp add: readNat_def)

lemma readNat_showNat: "readNat (showNat n) = n"
proof (induction n rule: showNat.induct)
  case (1 n)
  show ?case
  proof (cases "n < 10")
    case True
    then show ?thesis
      by (simp add: showNat.simps [of n] readNat_def digitValue_digitChar)
  next
    case False
    then have "readNat (showNat (n div 10)) = n div 10"
      using 1 by simp
    then show ?thesis
      using False by (simp add: showNat.simps [of n] readNat_snoc digitValue_digitChar)
  qed
qed

lemma webBlock_parts:
  "webBlock k it
     = ''['' @ showNat (k + 1) @ ''] Title: '' @ interp (item_title it) @ nl
       @ ''Description: '' @ interp (item_snippet it) @ nl
       @ ''URL: '' @ interp (item_link it)
   \<and> lineFeeds (webBlock k it)
     = 2 + lineFeeds (interp (item_title it)) + lineFeeds (interp (item_snippet it))
       + lineFeeds (interp (item_link it))"
proof -
  have l: "lineFeeds ''['' = 0" "lineFeeds ''] Title: '' = 0" "lineFeeds ''Description: '' = 0"
    "lineFeeds ''URL: '' = 0"
    by (simp_all add: lineFeeds_def)
  show ?thesis
    unfolding webBlock_def
    by (simp only: lineFeeds_append lineFeeds_nl lineFeeds_showNat l) simp
qed

lemma thumbnailLine_cases:
  "thumbnailLine (thumbnailOf it)
     = (case item_image it of
          None \<Rightarrow> []
        | Some im \<Rightarrow>
            (case thumbnailLink im of
               None \<Rightarrow> []
             | Some t \<Rightarrow> if t = [] then [] else ''Thumbnail: '' @ t))"
  by (simp split: option.splits)

lemma snippetOr_cases:
  "snippetOr sn
     = (case sn of
          None \<Rightarrow> ''No description''
        | Some s \<Rightarrow> if s = [] then ''No description'' else s)"
  by (cases sn) simp_all

lemma imageBlock_parts:
  "imageBlock k it
     = ''['' @ showNat (k + 1) @ ''] Title: '' @ interp (item_title it) @ nl
       @ ''Description: '' @ snippetOr (item_snippet it) @ nl
       @ ''Image URL: '' @ interp (item_link it) @ nl
       @ thumbnailLine (thumbnailOf it)
   \<and> lineFeeds (imageBlock k it)
     = 3 + lineFeeds (interp (item_title it)) + lineFeeds (snippetOr (item_snippet it))
       + lineFeeds (interp (item_link it)) + lineFeeds (thumbnailLine (thumbnailOf it))"
proof -
  have l: "lineFeeds ''['' = 0" "lineFeeds ''] Title: '' = 0" "lineFeeds ''Description: '' = 0"
    "lineFeeds ''Image URL: '' = 0"
    by (simp_all add: lineFeeds_def)
  show ?thesis
    unfolding imageBlock_def
    by (simp only: lineFeeds_append lineFeeds_nl lineFeeds_showNat l) simp
qed

text \<open>
  Claim C7, as amended. Every block has one part per field, each behind its label and the
  parts separated by line feeds: three parts in a web block, four in an image block,
  whichever fields the payload supplies, so the block has two, respectively three, line
  feeds besides those inside the printed texts. A field that is supplied is printed as it
  is, and what is printed for a missing field holds no line feed: the block of an item
  whose supplied texts hold no line feed has three lines (web) or four (image). In an image
  block a missing or empty snippet is printed as the fixed text \<open>No description\<close>; the fourth
  part is \<open>Thumbnail: \<close> followed by the link when the item has a non-empty thumbnail link,
  and is empty otherwise.
\<close>

theorem block_lines:
  "(\<exists>T D U.
      webBlock k it
        = ''['' @ showNat (k + 1) @ ''] Title: '' @ T @ nl
          @ ''Description: '' @ D @ nl
          @ ''URL: '' @ U
      \<and> printed (item_title it) T \<and> printed (item_snippet it) D \<and> printed (item_link it) U
      \<and> lineFeeds (webBlock k it) = 2 + lineFeeds T + lineFeeds D + lineFeeds U)
   \<and> (\<exists>T D U H.
      imageBlock k it
        = ''['' @ showNat (k + 1) @ ''] Title: '' @ T @ nl
          @ ''Description: '' @ D @ nl
          @ ''Image URL: '' @ U @ nl
          @ H
      \<and> printed (item_title it) T \<and> printed (item_link it) U
      \<and> D = (case item_snippet it of
                None \<Rightarrow> ''No description''
              | Some s \<Rightarrow> if s = [] then ''No description'' else s)
      \<and> H = (case item_image it of
                None \<Rightarrow> []
              | Some im \<Rightarrow>
                  (case thumbnailLink im of
                     None \<Rightarrow> []
                   | Some t \<Rightarrow> if t = [] then [] else ''Thumbnail: '' @ t))
      \<and> lineFeeds (imageBlock k it) = 3 + lineFeeds T + lineFeeds D + lineFeeds U + lineFeeds H)"
proof (rule conjI)
  show "\<exists>T D U.
      webBlock k it
        = ''['' @ showNat (k + 1) @ ''] Title: '' @ T @ nl
          @ ''Description: '' @ D @ nl
          @ ''URL: '' @ U
      \<and> printed (item_title it) T \<and> printed (item_snippet it) D \<and> printed (item_link it) U
      \<and> lineFeeds (webBlock k it) = 2 + lineFeeds T + lineFeeds D + lineFeeds U"
    using webBlock_parts [of k it] printed_interp by blast
next
  show "\<exists>T D U H.
      imageBlock k it
        = ''['' @ showNat (k + 1) @ ''] Title: '' @ T @ nl
          @ ''Description: '' @ D @ nl
          @ ''Image URL: '' @ U @ nl
          @ H
      \<and> printed (item_title it) T \<and> printed (item_link it) U
      \<and> D = (case item_snippet it of
                None \<Rightarrow> ''No description''
              | Some s \<Rightarrow> if s = [] then ''No description'' else s)
      \<and> H = (case item_image it of
                None \<Rightarrow> []
              | Some im \<Rightarrow>
                  (case thumbnailLink im of
                     None \<Rightarrow> []
                   | Some t \<Rightarrow> if t = [] then [] else ''Thumbnail: '' @ t))
      \<and> lineFeeds (imageBlock k it) = 3 + lineFeeds T + lineFeeds D + lineFeeds U + lineFeeds H"
    using imageBlock_parts [of k it, unfolded snippetOr_cases thumbnailLine_cases]
      printed_interp
    by blast
qed

theorem block_lines_witness:
  "imageBlock 4 noSnippet
     = ''[5] Title: Dog'' @ nl @ ''Description: No description'' @ nl
       @ ''Image URL: https://a.example/dog.png'' @ nl
       @ ''Thumbnail: https://t.example/dog.png''
   \<and> lineFeeds (imageBlock 4 noSnippet) = 3"
proof -
  from block_lines [of 4 noSnippet] obtain T D U H where
    eq: "imageBlock 4 noSnippet
        = ''['' @ showNat (4 + 1) @ ''] Title: '' @ T @ nl
          @ ''Description: '' @ D @ nl
          @ ''Image URL: '' @ U @ nl
          @ H"
    and t: "printed (item_title noSnippet) T" and u: "printed (item_link noSnippet) U"
    and d: "D = (case item_snippet noSnippet of
                None \<Rightarrow> ''No description''
              | Some s \<Rightarrow> if s = [] then ''No description'' else s)"
    and h: "H = (case item_image noSnippet of
                None \<Rightarrow> []
              | Some im \<Rightarrow>
                  (case thumbnailLink im of
                     None \<Rightarrow> []
                   | Some t \<Rightarrow> if t = [] then [] else ''Thumbnail: '' @ t))"
    and lf: "lineFeeds (imageBlock 4 noSnippet)
        = 3 + lineFeeds T + lineFeeds D + lineFeeds U + lineFeeds H"
    by (elim conjE exE)
  have T: "T = ''Dog''" and U: "U = ''https://a.example/dog.png''"
    using t u by (simp_all add: printed_def noSnippet_def)
  have D: "D = ''No description''" and H: "H = ''Thumbnail: https://t.example/dog.png''"
    using d h by (simp_all add: noSnippet_def)
  have five: "showNat (4 + 1) = ''5''"
    by (simp add: showNat.simps digitChar_def)
  have "lineFeeds (imageBlock 4 noSnippet) = 3"
    unfolding lf T D U H by (simp add: lineFeeds_def)
  moreover have "imageBlock 4 noSnippet
     = ''[5] Title: Dog'' @ nl @ ''Description: No description'' @ nl
       @ ''Image URL: https://a.example/dog.png'' @ nl
       @ ''Thumbnail: https://t.example/dog.png''"
    unfolding eq T D U H five by simp
  ultimately show ?thesis by simp
qed

text \<open>
  Counterexample to claim C7 as stated: an image result without a thumbnail is rendered
  with its fourth line left empty, not with a placeholder.
\<close>

theorem thumbnail_line_left_empty:
  "thumbnailOf bareImage = None
   \<and> linesOf (formatImageItems (Some [bareImage]))
       = [''[1] Title: Cat'', ''Description: A cat'', ''Image URL: https://a.example/cat.png'', []]"
  by (simp add: bareImage_def formatImageItems_def enumerate_eq_zip imageBlock_def nl_def
      showNat.simps digitChar_def)

text \<open>
  Counterexample to claim C8 as stated: the block of an image result that has no thumbnail
  link holds no thumbnail line; the text \<open>Thumbnail\<close> does not occur in it, and it ends with
  the line feed that follows the image URL.
\<close>

theorem image_block_without_thumbnail:
  "item_image (threeItems ! 0) = None
   \<and> imageBlock 0 (threeItems ! 0)
       = ''[1] Title: First'' @ nl @ ''Description: One'' @ nl
         @ ''Image URL: https://a.example/1'' @ nl
   \<and> \<not> includes_js (imageBlock 0 (threeItems ! 0)) ''Thumbnail''"
  by (simp add: threeItems_def imageBlock_def nl_def showNat.simps digitChar_def)

text \<open>
  Claim C8, as amended. For a non-empty list of items the output is the blocks of the
  items, one for each item and in input order, each block but the last followed by the
  separator of two line feeds (one empty line). The block of the item at position \<open>k\<close>
  starts with the digits of \<open>k + 1\<close> in brackets, and the digits printed for a number denote
  it. A web block is the title, description and URL lines; an image block is the title,
  description and image URL lines, each ended by a line feed, followed by the thumbnail
  line \<open>Thumbnail: <link>\<close> when the item has a non-empty thumbnail link and by nothing
  otherwise. A field that is supplied is printed as it is, and what is printed for a missing
  field holds no line feed; the description of an image block is \<open>No description\<close> when the
  snippet is missing or empty. For no items (a missing or an empty array) the output is a
  fixed sentence, and the sentence of the web search differs from that of the image search.
\<close>

theorem format_blocks:
  "(items \<noteq> [] \<longrightarrow>
      (\<exists>T D U.
         formatWebItems (Some items)
           = concat (map (\<lambda>k.
               ''['' @ showNat (k + 1) @ ''] Title: '' @ T k @ nl
               @ ''Description: '' @ D k @ nl
               @ ''URL: '' @ U k
               @ (if k + 1 < length items then nl @ nl else [])) [0..<length items])
         \<and> (\<forall>k<length items.
               printed (item_title (items ! k)) (T k)
               \<and> printed (item_snippet (items ! k)) (D k)
               \<and> printed (item_link (items ! k)) (U k)))
    \<and> (\<exists>T D U H.
         formatImageItems (Some items)
           = concat (map (\<lambda>k.
               ''['' @ showNat (k + 1) @ ''] Title: '' @ T k @ nl
               @ ''Description: '' @ D k @ nl
               @ ''Image URL: '' @ U k @ nl
               @ H k
               @ (if k + 1 < length items then nl @ nl else [])) [0..<length items])
         \<and> (\<forall>k<length items.
               printed (item_title (items ! k)) (T k)
               \<and> printed (item_link (items ! k)) (U k)
               \<and> D k = (case item_snippet (items ! k) of
                          None \<Rightarrow> ''No description''
                        | Some s \<Rightarrow> if s = [] then ''No description'' else s)
               \<and> H k = (case item_image (items ! k) of
                          None \<Rightarrow> []
                        | Some im \<Rightarrow>
                            (case thumbnailLink im of
                               None \<Rightarrow> []
                             | Some t \<Rightarrow> if t = [] then [] else ''Thumbnail: '' @ t)))))
   \<and> (\<forall>n. readNat (showNat n) = n)
   \<and> formatWebItems None = ''No results found for your query.''
   \<and> formatWebItems (Some []) = ''No results found for your query.''
   \<and> formatImageItems None = ''No image results found for your query.''
   \<and> formatImageItems (Some []) = ''No image results found for your query.''
   \<and> formatWebItems None \<noteq> formatImageItems None"
proof -
  have zero: "formatWebItems None = ''No results found for your query.''"
    "formatWebItems (Some []) = ''No results found for your query.''"
    "formatImageItems None = ''No image results found for your query.''"
    "formatImageItems (Some []) = ''No image results found for your query.''"
    by (simp_all add: formatWebItems_def formatImageItems_def)
  have differ: "formatWebItems None \<noteq> formatImageItems None"
    unfolding zero by simp
  have web: "\<exists>T D U.
         formatWebItems (Some items)
           = concat (map (\<lambda>k.
               ''['' @ showNat (k + 1) @ ''] Title: '' @ T k @ nl
               @ ''Description: '' @ D k @ nl
               @ ''URL: '' @ U k
               @ (if k + 1 < length items then nl @ nl else [])) [0..<length items])
         \<and> (\<forall>k<length items.
               printed (item_title (items ! k)) (T k)
               \<and> printed (item_snippet (items ! k)) (D k)
               \<and> printed (item_link (items ! k)) (U k))"
    if ne: "items \<noteq> []"
  proof -
    have "formatWebItems (Some items)
        = join (nl @ nl) (map (\<lambda>k. webBlock k (items ! k)) [0..<length items])"
      using ne by (simp add: formatWebItems_def map_enumerate)
    also have "\<dots> = concat (map (\<lambda>k. webBlock k (items ! k)
               @ (if k + 1 < length items then nl @ nl else [])) [0..<length items])"
      by (rule join_map_upt)
    also have "\<dots> = concat (map (\<lambda>k.
               ''['' @ showNat (k + 1) @ ''] Title: '' @ interp (item_title (items ! k)) @ nl
               @ ''Description: '' @ interp (item_snippet (items ! k)) @ nl
               @ ''URL: '' @ interp (item_link (items ! k))
               @ (if k + 1 < length items then nl @ nl else [])) [0..<length items])"
      by (simp add: webBlock_def)
    finally have eq: "formatWebItems (Some items)
        = concat (map (\<lambda>k.
               ''['' @ showNat (k + 1) @ ''] Title: '' @ interp (item_title (items ! k)) @ nl
               @ ''Description: '' @ interp (item_snippet (items ! k)) @ nl
               @ ''URL: '' @ interp (item_link (items ! k))
               @ (if k + 1 < length items then nl @ nl else [])) [0..<length items])" .
    show ?thesis
      apply (rule exI [of _ "\<lambda>k. interp (item_title (items ! k))"])
      apply (rule exI [of _ "\<lambda>k. interp (item_snippet (items ! k))"])
      apply (rule exI [of _ "\<lambda>k. interp (item_link (items ! k))"])
      using eq by (simp add: printed_interp)
  qed
  have image: "\<exists>T D U H.
         formatImageItems (Some items)
           = concat (map (\<lambda>k.
               ''['' @ showNat (k + 1) @ ''] Title: '' @ T k @ nl
               @ ''Description: '' @ D k @ nl
               @ ''Image URL: '' @ U k @ nl
               @ H k
               @ (if k + 1 < length items then nl @ nl else [])) [0..<length items])
         \<and> (\<forall>k<length items.
               printed (item_title (items ! k)) (T k)
               \<and> printed (item_link (items ! k)) (U k)
               \<and> D k = (case item_snippet (items ! k) of
                          None \<Rightarrow> ''No description''
                        | Some s \<Rightarrow> if s = [] then ''No description'' else s)
               \<and> H k = (case item_image (items ! k) of
                          None \<Rightarrow> []
                        | Some im \<Rightarrow>
                            (case thumbnailLink im of
                               None \<Rightarrow> []
                             | Some t \<Rightarrow> if t = [] then [] else ''Thumbnail: '' @ t)))"
    if ne: "items \<noteq> []"
  proof -
    have "formatImageItems (Some items)
        = join (nl @ nl) (map (\<lambda>k. imageBlock k (items ! k)) [0..<length items])"
      using ne by (simp add: formatImageItems_def map_enumerate)
    also have "\<dots> = concat (map (\<lambda>k. imageBlock k (items ! k)
               @ (if k + 1 < length items then nl @ nl else [])) [0..<length items])"
      by (rule join_map_upt)
    also have "\<dots> = concat (map (\<lambda>k.
               ''['' @ showNat (k + 1) @ ''] Title: '' @ interp (item_title (items ! k)) @ nl
               @ ''Description: '' @ snippetOr (item_snippet (items ! k)) @ nl
               @ ''Image URL: '' @ interp (item_link (items ! k)) @ nl
               @ thumbnailLine (thumbnailOf (items ! k))
               @ (if k + 1 < length items then nl @ nl else [])) [0..<length items])"
      by (simp add: imageBlock_def)
    finally have eq: "formatImageItems (Some items)
        = concat (map (\<lambda>k.
               ''['' @ showNat (k + 1) @ ''] Title: '' @ interp (item_title (items ! k)) @ nl
               @ ''Description: '' @ snippetOr (item_snippet (items ! k)) @ nl
               @ ''Image URL: '' @ interp (item_link (items ! k)) @ nl
               @ thumbnailLine (thumbnailOf (items ! k))
               @ (if k + 1 < length items then nl @ nl else [])) [0..<length items])" .
    show ?thesis
      apply (rule exI [of _ "\<lambda>k. interp (item_title (items ! k))"])
      apply (rule exI [of _ "\<lambda>k. snippetOr (item_snippet (items ! k))"])
      apply (rule exI [of _ "\<lambda>k. interp (item_link (items ! k))"])
      apply (rule exI [of _ "\<lambda>k. thumbnailLine (thumbnailOf (items ! k))"])
      using eq by (simp add: printed_interp thumbnailLine_cases snippetOr_cases del: thumbnailOf.simps)
  qed
  show ?thesis
    apply (intro conjI impI allI)
           apply (erule web)
          apply (erule image)
         apply (rule readNat_showNat)
        apply (rule zero)+
    apply (rule differ)
    done
qed

theorem format_blocks_witness:
  "threeItems \<noteq> []
   \<and> formatWebItems (Some threeItems)
       = ''[1] Title: First'' @ nl @ ''Description: One'' @ nl @ ''URL: https://a.example/1''
         @ nl @ nl
         @ ''[2] Title: Second'' @ nl @ ''Description: Two'' @ nl @ ''URL: https://b.example/2''
         @ nl @ nl
         @ ''[3] Title: Third'' @ nl @ ''Description: Three'' @ nl @ ''URL: https://c.example/3''
   \<and> formatImageItems (Some threeItems)
       = ''[1] Title: First'' @ nl @ ''Description: One'' @ nl
         @ ''Image URL: https://a.example/1'' @ nl
         @ nl @ nl
         @ ''[2] Title: Second'' @ nl @ ''Description: Two'' @ nl
         @ ''Image URL: https://b.example/2'' @ nl @ ''Thumbnail: https://t.example/2.png''
         @ nl @ nl
         @ ''[3] Title: Third'' @ nl @ ''Description: Three'' @ nl
         @ ''Image URL: https://c.example/3'' @ nl @ ''Thumbnail: https://t.example/3.png''"
proof -
  have ne: "threeItems \<noteq> []"
    by (simp add: threeItems_def)
  have len: "length threeItems = 3"
    by (simp add: threeItems_def)
  have upt: "[0..<3] = [0, 1, 2]"
    by (simp add: upt_rec)
  have sh: "showNat (0 + 1) = ''1''" "showNat (1 + 1) = ''2''" "showNat (2 + 1) = ''3''"
    by (simp_all add: showNat.simps digitChar_def)
  note th = format_blocks [of threeItems, THEN conjunct1, THEN mp, OF ne]
  from th [THEN conjunct1] obtain T D U where
    eq: "formatWebItems (Some threeItems)
           = concat (map (\<lambda>k.
               ''['' @ showNat (k + 1) @ ''] Title: '' @ T k @ nl
               @ ''Description: '' @ D k @ nl
               @ ''URL: '' @ U k
               @ (if k + 1 < length threeItems then nl @ nl else [])) [0..<length threeItems])"
    and pr: "\<forall>k<length threeItems.
               printed (item_title (threeItems ! k)) (T k)
               \<and> printed (item_snippet (threeItems ! k)) (D k)
               \<and> printed (item_link (threeItems ! k)) (U k)"
    by (elim conjE exE)
  have f: "T 0 = ''First''" "D 0 = ''One''" "U 0 = ''https://a.example/1''"
    "T 1 = ''Second''" "D 1 = ''Two''" "U 1 = ''https://b.example/2''"
    "T 2 = ''Third''" "D 2 = ''Three''" "U 2 = ''https://c.example/3''"
    using pr [rule_format, of 0] pr [rule_format, of 1] pr [rule_format, of 2]
    by (simp_all add: len printed_def threeItems_def)
  have web: "formatWebItems (Some threeItems)
       = ''[1] Title: First'' @ nl @ ''Description: One'' @ nl @ ''URL: https://a.example/1''
         @ nl @ nl
         @ ''[2] Title: Second'' @ nl @ ''Description: Two'' @ nl @ ''URL: https://b.example/2''
         @ nl @ nl
         @ ''[3] Title: Third'' @ nl @ ''Description: Three'' @ nl @ ''URL: https://c.example/3''"
    unfolding eq len upt by (simp only: list.map concat.simps sh f) simp
  from th [THEN conjunct2] obtain T' D' U' H' where
    eq': "formatImageItems (Some threeItems)
           = concat (map (\<lambda>k.
               ''['' @ showNat (k + 1) @ ''] Title: '' @ T' k @ nl
               @ ''Description: '' @ D' k @ nl
               @ ''Image URL: '' @ U' k @ nl
               @ H' k
               @ (if k + 1 < length threeItems then nl @ nl else [])) [0..<length threeItems])"
    and pr': "\<forall>k<length threeItems.
               printed (item_title (threeItems ! k)) (T' k)
               \<and> printed (item_link (threeItems ! k)) (U' k)
               \<and> D' k = (case item_snippet (threeItems ! k) of
                          None \<Rightarrow> ''No description''
                        | Some s \<Rightarrow> if s = [] then ''No description'' else s)
               \<and> H' k = (case item_image (threeItems ! k) of
                          None \<Rightarrow> []
                        | Some im \<Rightarrow>
                            (case thumbnailLink im of
                               None \<Rightarrow> []
                             | Some t \<Rightarrow> if t = [] then [] else ''Thumbnail: '' @ t))"
    by (elim conjE exE)
  have f': "T' 0 = ''First''" "D' 0 = ''One''" "U' 0 = ''https://a.example/1''" "H' 0 = []"
    "T' 1 = ''Second''" "D' 1 = ''Two''" "U' 1 = ''https://b.example/2''"
    "H' 1 = ''Thumbnail: https://t.example/2.png''"
    "T' 2 = ''Third''" "D' 2 = ''Three''" "U' 2 = ''https://c.example/3''"
    "H' 2 = ''Thumbnail: https://t.example/3.png''"
    using pr' [rule_format, of 0] pr' [rule_format, of 1] pr' [rule_format, of 2]
    by (simp_all add: len printed_def threeItems_def)
  have image: "formatImageItems (Some threeItems)
       = ''[1] Title: First'' @ nl @ ''Description: One'' @ nl
         @ ''Image URL: https://a.example/1'' @ nl
         @ nl @ nl
         @ ''[2] Title: Second'' @ nl @ ''Description: Two'' @ nl
         @ ''Image URL: https://b.example/2'' @ nl @ ''Thumbnail: https://t.example/2.png''
         @ nl @ nl
         @ ''[3] Title: Third'' @ nl @ ''Description: Three'' @ nl
         @ ''Image URL: https://c.example/3'' @ nl @ ''Thumbnail: https://t.example/3.png''"
    unfolding eq' len upt by (simp only: list.map concat.simps sh f') simp
  from ne web image show ?thesis by (simp only: simp_thms)
qed

section \<open>Validation and dispatch\<close>

lemma startsWith_iff: "startsWith s t \<longleftrightarrow> (\<exists>r. s = t @ r)"
  by (induction s t rule: startsWith.induct) auto

lemma includes_js_iff: "includes_js s t \<longleftrightarrow> (\<exists>p r. s = p @ t @ r)"
proof (induction s)
  case Nil
  then show ?case by simp
next
  case (Cons c s)
  show ?case
  proof
    assume "includes_js (c # s) t"
    then consider "startsWith (c # s) t" | "includes_js s t" by auto
    then show "\<exists>p r. c # s = p @ t @ r"
    proof cases
      case 1
      then obtain r where "c # s = t @ r" by (auto simp: startsWith_iff)
      then have "c # s = [] @ t @ r" by simp
      then show ?thesis by blast
    next
      case 2
      then obtain p r where "s = p @ t @ r" using Cons.IH by blast
      then have "c # s = (c # p) @ t @ r" by simp
      then show ?thesis by blast
    qed
  next
    assume "\<exists>p r. c # s = p @ t @ r"
    then obtain p r where pr: "c # s = p @ t @ r" by blast
    show "includes_js (c # s) t"
    proof (cases p)
      case Nil
      then have "startsWith (c # s) t" using pr by (auto simp: startsWith_iff)
      then show ?thesis by simp
    next
      case (Cons a p')
      then have "s = p' @ t @ r" using pr by simp
      then have "includes_js s t" using Cons.IH by blast
      then show ?thesis by simp
    qed
  qed
qed

lemma isGoogleWebSearchArgs_iff:
  "isGoogleWebSearchArgs args \<longleftrightarrow> (\<exists>s. args ''query'' = Some (JStr s))"
  by (auto simp: isGoogleWebSearchArgs_def split: option.splits jsval.splits)

lemma isGoogleImageSearchArgs_iff:
  "isGoogleImageSearchArgs args \<longleftrightarrow> (\<exists>s. args ''query'' = Some (JStr s))"
  by (auto simp: isGoogleImageSearchArgs_def split: option.splits jsval.splits)

lemma snd_performWebSearch:
  "snd (performWebSearch e query count start site rc)
     = snd (checkRateLimit (dateNow e) (dateTodayStart e) rc)"
  by (simp add: performWebSearch_def split: prod.splits sum.splits)

lemma snd_performImageSearch:
  "snd (performImageSearch e query count start rc)
     = snd (checkRateLimit (dateNow e) (dateTodayStart e) rc)"
  by (simp add: performImageSearch_def split: prod.splits sum.splits)

lemma snd_answer: "snd (answer out) = snd out"
  by (simp add: answer_def split: prod.splits sum.splits)

lemma tryBlock_web:
  assumes "args ''query'' = Some (JStr query)"
  shows "tryBlock e ''google_web_search'' (Some args) rc
     = searched (performWebSearch e query (argOr args ''count'' (JNum 5))
         (argOr args ''start'' (JNum 1)) (argOr args ''site'' (JStr [])) rc)"
  using assms by (simp add: tryBlock_def isGoogleWebSearchArgs_iff)

lemma tryBlock_image:
  assumes "args ''query'' = Some (JStr query)"
  shows "tryBlock e ''google_image_search'' (Some args) rc
     = searched (performImageSearch e query (argOr args ''count'' (JNum 5))
         (argOr args ''start'' (JNum 1)) rc)"
  using assms by (simp add: tryBlock_def isGoogleImageSearchArgs_iff)

lemma tryBlock_web_invalid:
  assumes "\<not> (\<exists>s. args ''query'' = Some (JStr s))"
  shows "tryBlock e ''google_web_search'' (Some args) rc
     = (Inl (InvalidArguments ''google_web_search''), rc)"
  using assms by (simp add: tryBlock_def isGoogleWebSearchArgs_iff)

lemma tryBlock_image_invalid:
  assumes "\<not> (\<exists>s. args ''query'' = Some (JStr s))"
  shows "tryBlock e ''google_image_search'' (Some args) rc
     = (Inl (InvalidArguments ''google_image_search''), rc)"
  using assms by (simp add: tryBlock_def isGoogleImageSearchArgs_iff)

lemma tryBlock_unknown:
  assumes "name \<noteq> ''google_web_search''" and "name \<noteq> ''google_image_search''"
  shows "tryBlock e name (Some args) rc
     = (Inr \<lparr>result_text = ''Unknown tool: '' @ name, result_isError = True\<rparr>, rc)"
  using assms by (simp add: tryBlock_def)

lemma caught_searched:
  "(case searched out of
      (Inl err, rc') \<Rightarrow> (\<lparr>result_text = ''Error: '' @ message err, result_isError = True\<rparr>, rc')
    | (Inr res, rc') \<Rightarrow> (res, rc')) = answer out"
  by (simp add: searched_def answer_def split: prod.splits sum.splits)

lemma searched_Inr:
  "searched out = (Inr res, rc') \<Longrightarrow> \<exists>results. res = \<lparr>result_text = results, result_isError = False\<rparr>"
  by (auto simp: searched_def split: prod.splits sum.splits)

lemma handler_web:
  assumes "args ''query'' = Some (JStr query)"
  shows "callToolHandler e ''google_web_search'' (Some args) rc
     = answer (performWebSearch e query (argOr args ''count'' (JNum 5))
         (argOr args ''start'' (JNum 1)) (argOr args ''site'' (JStr [])) rc)"
  unfolding callToolHandler_def tryBlock_web [of args query e rc, OF assms]
  by (rule caught_searched)

lemma handler_image:
  assumes "args ''query'' = Some (JStr query)"
  shows "callToolHandler e ''google_image_search'' (Some args) rc
     = answer (performImageSearch e query (argOr args ''count'' (JNum 5))
         (argOr args ''start'' (JNum 1)) rc)"
  unfolding callToolHandler_def tryBlock_image [of args query e rc, OF assms]
  by (rule caught_searched)

lemma handler_web_invalid:
  assumes "\<not> (\<exists>s. args ''query'' = Some (JStr s))"
  shows "callToolHandler e ''google_web_search'' (Some args) rc
     = (\<lparr>result_text = ''Error: Invalid arguments for google_web_search'',
         result_isError = True\<rparr>, rc)"
  unfolding callToolHandler_def tryBlock_web_invalid [of args e rc, OF assms]
  by simp

lemma handler_image_invalid:
  assumes "\<not> (\<exists>s. args ''query'' = Some (JStr s))"
  shows "callToolHandler e ''google_image_search'' (Some args) rc
     = (\<lparr>result_text = ''Error: Invalid arguments for google_image_search'',
         result_isError = True\<rparr>, rc)"
  unfolding callToolHandler_def tryBlock_image_invalid [of args e rc, OF assms]
  by simp

lemma tryBlock_Inr:
  assumes "tryBlock e name arguments rc = (Inr res, rc')"
  shows "res = \<lparr>result_text = ''Unknown tool: '' @ name, result_isError = True\<rparr>
      \<or> (\<exists>results. res = \<lparr>result_text = results, result_isError = False\<rparr>
          \<and> (name = ''google_web_search'' \<or> name = ''google_image_search''))"
proof (cases arguments)
  case None
  then show ?thesis using assms by (simp add: tryBlock_def)
next
  case (Some args)
  consider (web) "name = ''google_web_search''" | (image) "name = ''google_image_search''"
    | (other) "name \<noteq> ''google_web_search''" "name \<noteq> ''google_image_search''"
    by blast
  then show ?thesis
  proof cases
    case web
    show ?thesis
    proof (cases "\<exists>s. args ''query'' = Some (JStr s)")
      case True
      then obtain s where "args ''query'' = Some (JStr s)" by blast
      from tryBlock_web [of args s e rc, OF this] assms Some web
      show ?thesis using searched_Inr by metis
    next
      case False
      from tryBlock_web_invalid [of args e rc, OF this] assms Some web
      show ?thesis by simp
    qed
  next
    case image
    show ?thesis
    proof (cases "\<exists>s. args ''query'' = Some (JStr s)")
      case True
      then obtain s where "args ''query'' = Some (JStr s)" by blast
      from tryBlock_image [of args s e rc, OF this] assms Some image
      show ?thesis using searched_Inr by metis
    next
      case False
      from tryBlock_image_invalid [of args e rc, OF this] assms Some image
      show ?thesis by simp
    qed
  next
    case other
    from tryBlock_unknown [of name e args rc, OF other] assms Some
    show ?thesis by simp
  qed
qed

lemma performWebSearch_admitted:
  assumes "fst (checkRateLimit (dateNow e) (dateTodayStart e) rc) = Inr ()"
  shows "performWebSearch e query count start site rc
     = (case webRequest e query count start site of
          Inl err \<Rightarrow> Inl err
        | Inr url \<Rightarrow> readReply e formatWebItems (fetch e url),
        snd (checkRateLimit (dateNow e) (dateTodayStart e) rc))"
  using assms
  by (cases "checkRateLimit (dateNow e) (dateTodayStart e) rc")
     (simp add: performWebSearch_def split: sum.splits)

lemma performImageSearch_admitted:
  assumes "fst (checkRateLimit (dateNow e) (dateTodayStart e) rc) = Inr ()"
  shows "performImageSearch e query count start rc
     = (case imageRequest e query count start of
          Inl err \<Rightarrow> Inl err
        | Inr url \<Rightarrow> readReply e formatImageItems (fetch e url),
        snd (checkRateLimit (dateNow e) (dateTodayStart e) rc))"
  using assms
  by (cases "checkRateLimit (dateNow e) (dateTodayStart e) rc")
     (simp add: performImageSearch_def split: sum.splits)

lemma toStringMethod_not_null:
  "start \<noteq> JNull \<Longrightarrow> toStringMethod e start = Inr (templateString e start)"
  by (cases start) simp_all

lemma webRequest_not_null:
  assumes "start \<noteq> JNull"
  shows "webRequest e query count start site
     = Inr \<lparr>param_key = GOOGLE_API_KEY e, param_cx = GOOGLE_CSE_ID e,
            param_q = searchQuery e query site, param_num = numParam e count,
            param_start = templateString e start, param_searchType = None\<rparr>"
  by (simp add: webRequest_def toStringMethod_not_null [OF assms])

lemma imageRequest_not_null:
  assumes "start \<noteq> JNull"
  shows "imageRequest e query count start
     = Inr \<lparr>param_key = GOOGLE_API_KEY e, param_cx = GOOGLE_CSE_ID e,
            param_q = query, param_num = numParam e count,
            param_start = templateString e start, param_searchType = Some ''image''\<rparr>"
  by (simp add: imageRequest_def toStringMethod_not_null [OF assms])

lemma numParam_JNum: "numParam e (JNum c) = numberToString e (Finite (min c 10))"
  by (simp add: numParam_def)

text \<open>An admitted call whose \<open>start\<close> is not \<open>null\<close> is answered from the reply of the upstream.\<close>

lemma handler_web_upstream:
  assumes "args ''query'' = Some (JStr query)"
    and "fst (checkRateLimit (dateNow e) (dateTodayStart e) rc) = Inr ()"
    and "argOr args ''start'' (JNum 1) \<noteq> JNull"
  shows "callToolHandler e ''google_web_search'' (Some args) rc
          = answer (readReply e formatWebItems (fetch e
              \<lparr>param_key = GOOGLE_API_KEY e, param_cx = GOOGLE_CSE_ID e,
               param_q = searchQuery e query (argOr args ''site'' (JStr [])),
               param_num = numParam e (argOr args ''count'' (JNum 5)),
               param_start = templateString e (argOr args ''start'' (JNum 1)),
               param_searchType = None\<rparr>),
              snd (checkRateLimit (dateNow e) (dateTodayStart e) rc))"
  unfolding handler_web [of args query e rc, OF assms(1)]
    performWebSearch_admitted [OF assms(2)] webRequest_not_null [OF assms(3)]
  by simp

lemma handler_image_upstream:
  assumes "args ''query'' = Some (JStr query)"
    and "fst (checkRateLimit (dateNow e) (dateTodayStart e) rc) = Inr ()"
    and "argOr args ''start'' (JNum 1) \<noteq> JNull"
  shows "callToolHandler e ''google_image_search'' (Some args) rc
          = answer (readReply e formatImageItems (fetch e
              \<lparr>param_key = GOOGLE_API_KEY e, param_cx = GOOGLE_CSE_ID e,
               param_q = query,
               param_num = numParam e (argOr args ''count'' (JNum 5)),
               param_start = templateString e (argOr args ''start'' (JNum 1)),
               param_searchType = Some ''image''\<rparr>),
              snd (checkRateLimit (dateNow e) (dateTodayStart e) rc))"
  unfolding handler_image [of args query e rc, OF assms(1)]
    performImageSearch_admitted [OF assms(2)] imageRequest_not_null [OF assms(3)]
  by simp

text \<open>An admitted call whose \<open>start\<close> is \<open>null\<close> throws while the request is built.\<close>

lemma handler_web_null_start:
  assumes "args ''query'' = Some (JStr query)"
    and "fst (checkRateLimit (dateNow e) (dateTodayStart e) rc) = Inr ()"
    and "argOr args ''start'' (JNum 1) = JNull"
  shows "callToolHandler e ''google_web_search'' (Some args) rc
          = (\<lparr>result_text = ''Error: Cannot read properties of null (reading 'toString')'',
              result_isError = True\<rparr>,
             snd (checkRateLimit (dateNow e) (dateTodayStart e) rc))"
  unfolding handler_web [of args query e rc, OF assms(1)]
    performWebSearch_admitted [OF assms(2)] assms(3)
  by (simp add: webRequest_def answer_def)

lemma handler_image_null_start:
  assumes "args ''query'' = Some (JStr query)"
    and "fst (checkRateLimit (dateNow e) (dateTodayStart e) rc) = Inr ()"
    and "argOr args ''start'' (JNum 1) = JNull"
  shows "callToolHandler e ''google_image_search'' (Some args) rc
          = (\<lparr>result_text = ''Error: Cannot read properties of null (reading 'toString')'',
              result_isError = True\<rparr>,
             snd (checkRateLimit (dateNow e) (dateTodayStart e) rc))"
  unfolding handler_image [of args query e rc, OF assms(1)]
    performImageSearch_admitted [OF assms(2)] assms(3)
  by (simp add: imageRequest_def answer_def)

text \<open>No search throws the error of a failed validation.\<close>

lemma checkRateLimit_not_invalid:
  "fst (checkRateLimit now todayStart rc) \<noteq> Inl (InvalidArguments t)"
  by (simp add: checkRateLimit_def Let_def)

lemma toStringMethod_not_invalid: "toStringMethod e v \<noteq> Inl (InvalidArguments t)"
  by (cases v) simp_all

lemma readReply_not_invalid: "readReply e format rep \<noteq> Inl (InvalidArguments t)"
  by (simp add: readReply_def split: reply.splits option.splits prod.splits)

lemma performWebSearch_not_invalid:
  "fst (performWebSearch e query count start site rc) \<noteq> Inl (InvalidArguments t)"
proof (cases "checkRateLimit (dateNow e) (dateTodayStart e) rc")
  case (Pair r rc')
  show ?thesis
  proof (cases r)
    case (Inl err)
    then show ?thesis
      using Pair checkRateLimit_not_invalid [of "dateNow e" "dateTodayStart e" rc t]
      by (simp add: performWebSearch_def)
  next
    case (Inr u)
    show ?thesis
    proof (cases "toStringMethod e start")
      case (Inl err)
      then show ?thesis
        using Pair Inr toStringMethod_not_invalid [of e start t]
        by (simp add: performWebSearch_def webRequest_def)
    next
      case st: (Inr st)
      then show ?thesis
        using Pair Inr readReply_not_invalid
        by (simp add: performWebSearch_def webRequest_def)
    qed
  qed
qed

lemma performImageSearch_not_invalid:
  "fst (performImageSearch e query count start rc) \<noteq> Inl (InvalidArguments t)"
proof (cases "checkRateLimit (dateNow e) (dateTodayStart e) rc")
  case (Pair r rc')
  show ?thesis
  proof (cases r)
    case (Inl err)
    then show ?thesis
      using Pair checkRateLimit_not_invalid [of "dateNow e" "dateTodayStart e" rc t]
      by (simp add: performImageSearch_def)
  next
    case (Inr u)
    show ?thesis
    proof (cases "toStringMethod e start")
      case (Inl err)
      then show ?thesis
        using Pair Inr toStringMethod_not_invalid [of e start t]
        by (simp add: performImageSearch_def imageRequest_def)
    next
      case st: (Inr st)
      then show ?thesis
        using Pair Inr readReply_not_invalid
        by (simp add: performImageSearch_def imageRequest_def)
    qed
  qed
qed

lemma fst_searched_Inl: "fst (searched out) = Inl err \<longleftrightarrow> fst out = Inl err"
  by (simp add: searched_def split: prod.splits sum.splits)

lemma tryBlock_web_not_invalid:
  assumes "args ''query'' = Some (JStr query)"
  shows "fst (tryBlock e ''google_web_search'' (Some args) rc) \<noteq> Inl (InvalidArguments t)"
  unfolding tryBlock_web [of args query e rc, OF assms] fst_searched_Inl
  by (rule performWebSearch_not_invalid)

lemma tryBlock_image_not_invalid:
  assumes "args ''query'' = Some (JStr query)"
  shows "fst (tryBlock e ''google_image_search'' (Some args) rc) \<noteq> Inl (InvalidArguments t)"
  unfolding tryBlock_image [of args query e rc, OF assms] fst_searched_Inl
  by (rule performImageSearch_not_invalid)

section \<open>The claims about validation, the request and dispatch\<close>

text \<open>
  Counterexample to claim C4 as stated: a bag with \<open>count = 50\<close> passes the type guard, the
  call consumes rate-limit quota and the request goes upstream (with \<open>num\<close> clamped to 10).
\<close>

theorem count_50_is_accepted:
  "isGoogleWebSearchArgs [''query'' \<mapsto> JStr ''foo'', ''count'' \<mapsto> JNum 50]
   \<and> callToolHandler echoEnv ''google_web_search''
         (Some [''query'' \<mapsto> JStr ''foo'', ''count'' \<mapsto> JNum 50]) (initialCount 0 0)
       = (\<lparr>result_text = ''[1] Title: foo'' @ nl @ ''Description: 10'' @ nl @ ''URL: 1'',
           result_isError = False\<rparr>,
          \<lparr>daily = 1, second = 1, lastSecondReset = 0, lastDayReset = 0\<rparr>)"
  by (simp add: isGoogleWebSearchArgs_def callToolHandler_def tryBlock_def searched_def
      performWebSearch_def checkRateLimit_def initialCount_def perSecond_def perDay_def
      echoEnv_def echoFetch_def argOr_def webRequest_def numParam_def searchQuery_def
      readReply_def formatWebItems_def enumerate_eq_zip webBlock_def
      showInt_def showNat.simps digitChar_def)

text \<open>
  Claim C4, as amended. For every argument bag whose \<open>query\<close> is a string, whatever \<open>count\<close>
  and \<open>start\<close> are, validation does not fail: both type guards accept the bag, the
  \<^verbatim>\<open>try\<close> block does not throw \<open>InvalidArguments\<close>, and the call runs the rate-limit check,
  whose counter object it leaves behind. When the check admits the call, the call goes on
  with the values unchecked:

    \<^item> with a number \<open>c\<close> as \<open>count\<close> (given, or the default 5) and a \<open>start\<close> that is not
      \<open>null\<close>, the upstream is called with \<open>num\<close> the text of \<open>min c 10\<close> (a count above 10 is
      clamped to 10, a count below 1 is sent as it is), and the handler answers from the
      reply;
    \<^item> with a number \<open>s\<close> as \<open>start\<close> (given, or the default 1), below 1 or not, the upstream
      is called with \<open>start\<close> the text of \<open>s\<close>, and the handler answers from the reply;
    \<^item> with \<open>start: null\<close> no request is sent: the call fails with the \<^verbatim>\<open>TypeError\<close> of
      \<^verbatim>\<open>start.toString()\<close>, after the quota was consumed.
\<close>

theorem range_not_validated:
  assumes "args ''query'' = Some (JStr query)"
  shows "isGoogleWebSearchArgs args \<and> isGoogleImageSearchArgs args
    \<and> (\<forall>tool. fst (tryBlock e ''google_web_search'' (Some args) rc)
                 \<noteq> Inl (InvalidArguments tool))
    \<and> (\<forall>tool. fst (tryBlock e ''google_image_search'' (Some args) rc)
                 \<noteq> Inl (InvalidArguments tool))
    \<and> snd (callToolHandler e ''google_web_search'' (Some args) rc)
        = snd (checkRateLimit (dateNow e) (dateTodayStart e) rc)
    \<and> snd (callToolHandler e ''google_image_search'' (Some args) rc)
        = snd (checkRateLimit (dateNow e) (dateTodayStart e) rc)
    \<and> (\<forall>c. argOr args ''count'' (JNum 5) = JNum c
            \<and> fst (checkRateLimit (dateNow e) (dateTodayStart e) rc) = Inr ()
            \<and> argOr args ''start'' (JNum 1) \<noteq> JNull \<longrightarrow>
          callToolHandler e ''google_web_search'' (Some args) rc
            = answer (readReply e formatWebItems (fetch e
                \<lparr>param_key = GOOGLE_API_KEY e, param_cx = GOOGLE_CSE_ID e,
                 param_q = searchQuery e query (argOr args ''site'' (JStr [])),
                 param_num = numberToString e (Finite (min c 10)),
                 param_start = templateString e (argOr args ''start'' (JNum 1)),
                 param_searchType = None\<rparr>),
                snd (checkRateLimit (dateNow e) (dateTodayStart e) rc))
          \<and> callToolHandler e ''google_image_search'' (Some args) rc
            = answer (readReply e formatImageItems (fetch e
                \<lparr>param_key = GOOGLE_API_KEY e, param_cx = GOOGLE_CSE_ID e,
                 param_q = query,
                 param_num = numberToString e (Finite (min c 10)),
                 param_start = templateString e (argOr args ''start'' (JNum 1)),
                 param_searchType = Some ''image''\<rparr>),
                snd (checkRateLimit (dateNow e) (dateTodayStart e) rc)))
    \<and> (\<forall>s. argOr args ''start'' (JNum 1) = JNum s
            \<and> fst (checkRateLimit (dateNow e) (dateTodayStart e) rc) = Inr () \<longrightarrow>
          callToolHandler e ''google_web_search'' (Some args) rc
            = answer (readReply e formatWebItems (fetch e
                \<lparr>param_key = GOOGLE_API_KEY e, param_cx = GOOGLE_CSE_ID e,
                 param_q = searchQuery e query (argOr args ''site'' (JStr [])),
                 param_num = numParam e (argOr args ''count'' (JNum 5)),
                 param_start = numberToString e (Finite s),
                 param_searchType = None\<rparr>),
                snd (checkRateLimit (dateNow e) (dateTodayStart e) rc))
          \<and> callToolHandler e ''google_image_search'' (Some args) rc
            = answer (readReply e formatImageItems (fetch e
                \<lparr>param_key = GOOGLE_API_KEY e, param_cx = GOOGLE_CSE_ID e,
                 param_q = query,
                 param_num = numParam e (argOr args ''count'' (JNum 5)),
                 param_start = numberToString e (Finite s),
                 param_searchType = Some ''image''\<rparr>),
                snd (checkRateLimit (dateNow e) (dateTodayStart e) rc)))
    \<and> (argOr args ''start'' (JNum 1) = JNull
          \<and> fst (checkRateLimit (dateNow e) (dateTodayStart e) rc) = Inr () \<longrightarrow>
          callToolHandler e ''google_web_search'' (Some args) rc
            = (\<lparr>result_text = ''Error: Cannot read properties of null (reading 'toString')'',
                result_isError = True\<rparr>,
               snd (checkRateLimit (dateNow e) (dateTodayStart e) rc))
          \<and> callToolHandler e ''google_image_search'' (Some args) rc
            = (\<lparr>result_text = ''Error: Cannot read properties of null (reading 'toString')'',
                result_isError = True\<rparr>,
               snd (checkRateLimit (dateNow e) (dateTodayStart e) rc)))"
proof (intro conjI allI impI)
  show "isGoogleWebSearchArgs args" "isGoogleImageSearchArgs args"
    using assms by (simp_all add: isGoogleWebSearchArgs_iff isGoogleImageSearchArgs_iff)
next
  fix tool
  show "fst (tryBlock e ''google_web_search'' (Some args) rc) \<noteq> Inl (InvalidArguments tool)"
    by (rule tryBlock_web_not_invalid [of args query e rc tool, OF assms])
  show "fst (tryBlock e ''google_image_search'' (Some args) rc) \<noteq> Inl (InvalidArguments tool)"
    by (rule tryBlock_image_not_invalid [of args query e rc tool, OF assms])
next
  show "snd (callToolHandler e ''google_web_search'' (Some args) rc)
        = snd (checkRateLimit (dateNow e) (dateTodayStart e) rc)"
    unfolding handler_web [of args query e rc, OF assms]
    by (simp only: snd_answer snd_performWebSearch)
  show "snd (callToolHandler e ''google_image_search'' (Some args) rc)
        = snd (checkRateLimit (dateNow e) (dateTodayStart e) rc)"
    unfolding handler_image [of args query e rc, OF assms]
    by (simp only: snd_answer snd_performImageSearch)
next
  fix c
  assume h: "argOr args ''count'' (JNum 5) = JNum c
            \<and> fst (checkRateLimit (dateNow e) (dateTodayStart e) rc) = Inr ()
            \<and> argOr args ''start'' (JNum 1) \<noteq> JNull"
  then have cnt: "argOr args ''count'' (JNum 5) = JNum c"
    and adm: "fst (checkRateLimit (dateNow e) (dateTodayStart e) rc) = Inr ()"
    and st: "argOr args ''start'' (JNum 1) \<noteq> JNull"
    by simp_all
  show "callToolHandler e ''google_web_search'' (Some args) rc
            = answer (readReply e formatWebItems (fetch e
                \<lparr>param_key = GOOGLE_API_KEY e, param_cx = GOOGLE_CSE_ID e,
                 param_q = searchQuery e query (argOr args ''site'' (JStr [])),
                 param_num = numberToString e (Finite (min c 10)),
                 param_start = templateString e (argOr args ''start'' (JNum 1)),
                 param_searchType = None\<rparr>),
                snd (checkRateLimit (dateNow e) (dateTodayStart e) rc))"
    using handler_web_upstream [of args query e rc, OF assms adm st]
    unfolding cnt numParam_JNum .
  show "callToolHandler e ''google_image_search'' (Some args) rc
            = answer (readReply e formatImageItems (fetch e
                \<lparr>param_key = GOOGLE_API_KEY e, param_cx = GOOGLE_CSE_ID e,
                 param_q = query,
                 param_num = numberToString e (Finite (min c 10)),
                 param_start = templateString e (argOr args ''start'' (JNum 1)),
                 param_searchType = Some ''image''\<rparr>),
                snd (checkRateLimit (dateNow e) (dateTodayStart e) rc))"
    using handler_image_upstream [of args query e rc, OF assms adm st]
    unfolding cnt numParam_JNum .
next
  fix s
  assume h: "argOr args ''start'' (JNum 1) = JNum s
            \<and> fst (checkRateLimit (dateNow e) (dateTodayStart e) rc) = Inr ()"
  then have st: "argOr args ''start'' (JNum 1) = JNum s"
    and adm: "fst (checkRateLimit (dateNow e) (dateTodayStart e) rc) = Inr ()"
    by simp_all
  have nn: "argOr args ''start'' (JNum 1) \<noteq> JNull"
    unfolding st by simp
  show "callToolHandler e ''google_web_search'' (Some args) rc
            = answer (readReply e formatWebItems (fetch e
                \<lparr>param_key = GOOGLE_API_KEY e, param_cx = GOOGLE_CSE_ID e,
                 param_q = searchQuery e query (argOr args ''site'' (JStr [])),
                 param_num = numParam e (argOr args ''count'' (JNum 5)),
                 param_start = numberToString e (Finite s),
                 param_searchType = None\<rparr>),
                snd (checkRateLimit (dateNow e) (dateTodayStart e) rc))"
    using handler_web_upstream [of args query e rc, OF assms adm nn]
    unfolding st templateString.simps .
  show "callToolHandler e ''google_image_search'' (Some args) rc
            = answer (readReply e formatImageItems (fetch e
                \<lparr>param_key = GOOGLE_API_KEY e, param_cx = GOOGLE_CSE_ID e,
                 param_q = query,
                 param_num = numParam e (argOr args ''count'' (JNum 5)),
                 param_start = numberToString e (Finite s),
                 param_searchType = Some ''image''\<rparr>),
                snd (checkRateLimit (dateNow e) (dateTodayStart e) rc))"
    using handler_image_upstream [of args query e rc, OF assms adm nn]
    unfolding st templateString.simps .
next
  assume h: "argOr args ''start'' (JNum 1) = JNull
          \<and> fst (checkRateLimit (dateNow e) (dateTodayStart e) rc) = Inr ()"
  then have st: "argOr args ''start'' (JNum 1) = JNull"
    and adm: "fst (checkRateLimit (dateNow e) (dateTodayStart e) rc) = Inr ()"
    by simp_all
  show "callToolHandler e ''google_web_search'' (Some args) rc
            = (\<lparr>result_text = ''Error: Cannot read properties of null (reading 'toString')'',
                result_isError = True\<rparr>,
               snd (checkRateLimit (dateNow e) (dateTodayStart e) rc))"
    by (rule handler_web_null_start [of args query e rc, OF assms adm st])
  show "callToolHandler e ''google_image_search'' (Some args) rc
            = (\<lparr>result_text = ''Error: Cannot read properties of null (reading 'toString')'',
                result_isError = True\<rparr>,
               snd (checkRateLimit (dateNow e) (dateTodayStart e) rc))"
    by (rule handler_image_null_start [of args query e rc, OF assms adm st])
qed

theorem range_not_validated_witness:
  "[''query'' \<mapsto> JStr ''foo'', ''count'' \<mapsto> JNum 0, ''start'' \<mapsto> JNum (- 3)] ''query''
     = Some (JStr ''foo'')
   \<and> fst (checkRateLimit (dateNow echoEnv) (dateTodayStart echoEnv) (initialCount 0 0)) = Inr ()
   \<and> callToolHandler echoEnv ''google_image_search''
        (Some [''query'' \<mapsto> JStr ''foo'', ''count'' \<mapsto> JNum 0, ''start'' \<mapsto> JNum (- 3)])
        (initialCount 0 0)
      = (\<lparr>result_text = ''[1] Title: foo'' @ nl @ ''Description: 0'' @ nl
                          @ ''Image URL: -3'' @ nl,
          result_isError = False\<rparr>,
         \<lparr>daily = 1, second = 1, lastSecondReset = 0, lastDayReset = 0\<rparr>)
   \<and> callToolHandler echoEnv ''google_web_search''
        (Some [''query'' \<mapsto> JStr ''foo'', ''count'' \<mapsto> JNum 0, ''start'' \<mapsto> JNum (- 3)])
        (initialCount 0 0)
      = (\<lparr>result_text = ''[1] Title: foo'' @ nl @ ''Description: 0'' @ nl @ ''URL: -3'',
          result_isError = False\<rparr>,
         \<lparr>daily = 1, second = 1, lastSecondReset = 0, lastDayReset = 0\<rparr>)"
proof -
  let ?args = "[''query'' \<mapsto> JStr ''foo'', ''count'' \<mapsto> JNum 0, ''start'' \<mapsto> JNum (- 3)]"
  let ?rc' = "snd (checkRateLimit (dateNow echoEnv) (dateTodayStart echoEnv) (initialCount 0 0))"
  have a: "?args ''query'' = Some (JStr ''foo'')"
    by simp
  have b: "fst (checkRateLimit (dateNow echoEnv) (dateTodayStart echoEnv) (initialCount 0 0)) = Inr ()"
    by (simp add: checkRateLimit_def echoEnv_def initialCount_def perSecond_def perDay_def)
  have rc': "?rc' = \<lparr>daily = 1, second = 1, lastSecondReset = 0, lastDayReset = 0\<rparr>"
    by (simp add: checkRateLimit_def echoEnv_def initialCount_def perSecond_def perDay_def)
  have cnt: "argOr ?args ''count'' (JNum 5) = JNum 0"
    and st: "argOr ?args ''start'' (JNum 1) = JNum (- 3)"
    and site: "argOr ?args ''site'' (JStr []) = JStr []"
    by (simp_all add: argOr_def)
  have digits: "numberToString echoEnv (Finite (min 0 10)) = ''0''"
    "numberToString echoEnv (Finite (- 3)) = ''-3''"
    "numParam echoEnv (JNum 0) = ''0''"
    "templateString echoEnv (JNum (- 3)) = ''-3''"
    by (simp_all add: echoEnv_def numParam_def showInt_def showNat.simps digitChar_def)
  note th = range_not_validated [of ?args "''foo''" echoEnv "initialCount 0 0", OF a]
  note byCount = th [THEN conjunct2, THEN conjunct2, THEN conjunct2, THEN conjunct2,
      THEN conjunct2, THEN conjunct2, THEN conjunct1, THEN spec, of 0]
  note byStart = th [THEN conjunct2, THEN conjunct2, THEN conjunct2, THEN conjunct2,
      THEN conjunct2, THEN conjunct2, THEN conjunct2, THEN conjunct1, THEN spec, of "- 3"]
  have "callToolHandler echoEnv ''google_image_search'' (Some ?args) (initialCount 0 0)
      = answer (readReply echoEnv formatImageItems (fetch echoEnv
                \<lparr>param_key = GOOGLE_API_KEY echoEnv, param_cx = GOOGLE_CSE_ID echoEnv,
                 param_q = ''foo'',
                 param_num = numberToString echoEnv (Finite (min 0 10)),
                 param_start = templateString echoEnv (argOr ?args ''start'' (JNum 1)),
                 param_searchType = Some ''image''\<rparr>),
                ?rc')"
    using byCount cnt b st by simp
  also have "\<dots> = (\<lparr>result_text = ''[1] Title: foo'' @ nl @ ''Description: 0'' @ nl
                          @ ''Image URL: -3'' @ nl,
          result_isError = False\<rparr>,
         \<lparr>daily = 1, second = 1, lastSecondReset = 0, lastDayReset = 0\<rparr>)"
    unfolding rc' st digits
    by (simp add: answer_def readReply_def echoEnv_def echoFetch_def formatImageItems_def
        enumerate_eq_zip imageBlock_def showNat.simps digitChar_def)
  finally have image: "callToolHandler echoEnv ''google_image_search'' (Some ?args) (initialCount 0 0)
      = (\<lparr>result_text = ''[1] Title: foo'' @ nl @ ''Description: 0'' @ nl
                          @ ''Image URL: -3'' @ nl,
          result_isError = False\<rparr>,
         \<lparr>daily = 1, second = 1, lastSecondReset = 0, lastDayReset = 0\<rparr>)" .
  have "callToolHandler echoEnv ''google_web_search'' (Some ?args) (initialCount 0 0)
      = answer (readReply echoEnv formatWebItems (fetch echoEnv
                \<lparr>param_key = GOOGLE_API_KEY echoEnv, param_cx = GOOGLE_CSE_ID echoEnv,
                 param_q = searchQuery echoEnv ''foo'' (argOr ?args ''site'' (JStr [])),
                 param_num = numParam echoEnv (argOr ?args ''count'' (JNum 5)),
                 param_start = numberToString echoEnv (Finite (- 3)),
                 param_searchType = None\<rparr>),
                ?rc')"
    using byStart st b by simp
  also have "\<dots> = (\<lparr>result_text = ''[1] Title: foo'' @ nl @ ''Description: 0'' @ nl @ ''URL: -3'',
          result_isError = False\<rparr>,
         \<lparr>daily = 1, second = 1, lastSecondReset = 0, lastDayReset = 0\<rparr>)"
    unfolding rc' cnt site digits
    by (simp add: answer_def readReply_def echoEnv_def echoFetch_def formatWebItems_def
        searchQuery_def enumerate_eq_zip webBlock_def showNat.simps digitChar_def)
  finally have web: "callToolHandler echoEnv ''google_web_search'' (Some ?args) (initialCount 0 0)
      = (\<lparr>result_text = ''[1] Title: foo'' @ nl @ ''Description: 0'' @ nl @ ''URL: -3'',
          result_isError = False\<rparr>,
         \<lparr>daily = 1, second = 1, lastSecondReset = 0, lastDayReset = 0\<rparr>)" .
  from a b image web show ?thesis by (simp only: simp_thms)
qed

text \<open>
  Counterexample to claim C5 as stated: a blank \<open>query\<close> passes the type guard, the call is
  admitted and both counters are incremented.
\<close>

theorem blank_query_is_accepted:
  "isGoogleWebSearchArgs [''query'' \<mapsto> JStr ''  '']
   \<and> callToolHandler echoEnv ''google_web_search'' (Some [''query'' \<mapsto> JStr ''  ''])
         (initialCount 0 0)
       = (\<lparr>result_text = ''[1] Title:   '' @ nl @ ''Description: 5'' @ nl @ ''URL: 1'',
           result_isError = False\<rparr>,
          \<lparr>daily = 1, second = 1, lastSecondReset = 0, lastDayReset = 0\<rparr>)"
  by (simp add: isGoogleWebSearchArgs_def callToolHandler_def tryBlock_def searched_def
      performWebSearch_def checkRateLimit_def initialCount_def perSecond_def perDay_def
      echoEnv_def echoFetch_def argOr_def webRequest_def numParam_def searchQuery_def
      readReply_def formatWebItems_def enumerate_eq_zip webBlock_def
      showInt_def showNat.simps digitChar_def)

text \<open>
  Claim C5, as amended. For every argument bag whose \<open>query\<close> is missing or is not a string,
  validation fails for both tools with \<open>InvalidArguments\<close> and the counter object is returned
  as it was: no window maintenance, no increment. A \<open>query\<close> that is a string passes
  validation whatever its content, blank included, and the call then runs the rate-limit
  check.
\<close>

theorem query_validation:
  "(\<not> (\<exists>s. args ''query'' = Some (JStr s)) \<longrightarrow>
      \<not> isGoogleWebSearchArgs args \<and> \<not> isGoogleImageSearchArgs args
      \<and> callToolHandler e ''google_web_search'' (Some args) rc
          = (\<lparr>result_text = ''Error: '' @ message (InvalidArguments ''google_web_search''),
              result_isError = True\<rparr>, rc)
      \<and> callToolHandler e ''google_image_search'' (Some args) rc
          = (\<lparr>result_text = ''Error: '' @ message (InvalidArguments ''google_image_search''),
              result_isError = True\<rparr>, rc))
   \<and> (\<forall>s. args ''query'' = Some (JStr s) \<longrightarrow>
      isGoogleWebSearchArgs args \<and> isGoogleImageSearchArgs args
      \<and> snd (callToolHandler e ''google_web_search'' (Some args) rc)
          = snd (checkRateLimit (dateNow e) (dateTodayStart e) rc)
      \<and> snd (callToolHandler e ''google_image_search'' (Some args) rc)
          = snd (checkRateLimit (dateNow e) (dateTodayStart e) rc))"
proof (intro conjI impI allI)
  fix s assume q: "args ''query'' = Some (JStr s)"
  show "isGoogleWebSearchArgs args" "isGoogleImageSearchArgs args"
    using q by (simp_all add: isGoogleWebSearchArgs_iff isGoogleImageSearchArgs_iff)
  show "snd (callToolHandler e ''google_web_search'' (Some args) rc)
          = snd (checkRateLimit (dateNow e) (dateTodayStart e) rc)"
    using handler_web [of args s e rc] q by (simp only: snd_answer snd_performWebSearch)
  show "snd (callToolHandler e ''google_image_search'' (Some args) rc)
          = snd (checkRateLimit (dateNow e) (dateTodayStart e) rc)"
    using handler_image [of args s e rc] q by (simp only: snd_answer snd_performImageSearch)
next
  assume n: "\<not> (\<exists>s. args ''query'' = Some (JStr s))"
  show "\<not> isGoogleWebSearchArgs args" "\<not> isGoogleImageSearchArgs args"
    using n by (simp_all add: isGoogleWebSearchArgs_iff isGoogleImageSearchArgs_iff)
  show "callToolHandler e ''google_web_search'' (Some args) rc
          = (\<lparr>result_text = ''Error: '' @ message (InvalidArguments ''google_web_search''),
              result_isError = True\<rparr>, rc)"
    using handler_web_invalid [of args e rc] n by simp
  show "callToolHandler e ''google_image_search'' (Some args) rc
          = (\<lparr>result_text = ''Error: '' @ message (InvalidArguments ''google_image_search''),
              result_isError = True\<rparr>, rc)"
    using handler_image_invalid [of args e rc] n by simp
qed

theorem query_validation_witness:
  "\<not> (\<exists>s. [''count'' \<mapsto> JNum 3] ''query'' = Some (JStr s))
   \<and> callToolHandler echoEnv ''google_web_search'' (Some [''count'' \<mapsto> JNum 3])
        \<lparr>daily = 7, second = 2, lastSecondReset = 0, lastDayReset = 0\<rparr>
      = (\<lparr>result_text = ''Error: Invalid arguments for google_web_search'',
           result_isError = True\<rparr>,
         \<lparr>daily = 7, second = 2, lastSecondReset = 0, lastDayReset = 0\<rparr>)
   \<and> [''query'' \<mapsto> JNum 12] ''query'' \<noteq> None
   \<and> callToolHandler echoEnv ''google_image_search'' (Some [''query'' \<mapsto> JNum 12])
        \<lparr>daily = 7, second = 2, lastSecondReset = 0, lastDayReset = 0\<rparr>
      = (\<lparr>result_text = ''Error: Invalid arguments for google_image_search'',
           result_isError = True\<rparr>,
         \<lparr>daily = 7, second = 2, lastSecondReset = 0, lastDayReset = 0\<rparr>)
   \<and> snd (callToolHandler echoEnv ''google_web_search'' (Some [''query'' \<mapsto> JStr ''  ''])
        \<lparr>daily = 7, second = 2, lastSecondReset = 0, lastDayReset = 0\<rparr>)
      = \<lparr>daily = 8, second = 3, lastSecondReset = 0, lastDayReset = 0\<rparr>"
proof -
  let ?rc = "\<lparr>daily = 7, second = 2, lastSecondReset = 0, lastDayReset = 0\<rparr>"
  have a: "\<not> (\<exists>s. [''count'' \<mapsto> JNum 3] ''query'' = Some (JStr s))"
    by simp
  have b: "\<not> (\<exists>s. [''query'' \<mapsto> JNum 12] ''query'' = Some (JStr s))"
    by simp
  have c: "[''query'' \<mapsto> JStr ''  ''] ''query'' = Some (JStr ''  '')"
    by simp
  have d: "snd (checkRateLimit (dateNow echoEnv) (dateTodayStart echoEnv) ?rc)
      = \<lparr>daily = 8, second = 3, lastSecondReset = 0, lastDayReset = 0\<rparr>"
    by (simp add: checkRateLimit_def echoEnv_def perSecond_def perDay_def)
  show ?thesis
    using query_validation [of "[''count'' \<mapsto> JNum 3]" echoEnv ?rc]
      query_validation [of "[''query'' \<mapsto> JNum 12]" echoEnv ?rc]
      query_validation [of "[''query'' \<mapsto> JStr ''  '']" echoEnv ?rc]
      a b c d
    by simp
qed

text \<open>
  Claim C6. For a web search whose \<open>site\<close> is a string: when the site is non-empty and the
  raw query does not contain the text \<open>site:\<close>, the query text sent upstream is the raw query
  followed by \<open> site:\<close> and the site; otherwise (empty site, or a query that already contains
  \<open>site:\<close>) it is the raw query unchanged. The request is built whenever \<open>start\<close> is not
  \<open>null\<close>.
\<close>

theorem site_restriction:
  assumes "webRequest e query count start (JStr site) = Inr url"
  shows "param_q url =
     (if site \<noteq> [] \<and> \<not> (\<exists>p r. query = p @ ''site:'' @ r)
      then query @ '' site:'' @ site else query)"
proof -
  have "param_q url = searchQuery e query (JStr site)"
    using assms by (auto simp: webRequest_def split: sum.splits)
  then show ?thesis
    by (simp only: searchQuery_def includes_js_iff truthy.simps templateString.simps)
qed

theorem site_restriction_witness:
  "webRequest echoEnv ''foo'' (JNum 5) (JNum 1) (JStr ''example.com'')
     = Inr \<lparr>param_key = ''key'', param_cx = ''cx'', param_q = ''foo site:example.com'',
            param_num = ''5'', param_start = ''1'', param_searchType = None\<rparr>
   \<and> \<not> (\<exists>p r. ''foo'' = p @ ''site:'' @ r)
   \<and> webRequest echoEnv ''foo site:bar.org'' (JNum 5) (JNum 1) (JStr ''example.com'')
     = Inr \<lparr>param_key = ''key'', param_cx = ''cx'', param_q = ''foo site:bar.org'',
            param_num = ''5'', param_start = ''1'', param_searchType = None\<rparr>
   \<and> (\<exists>p r. ''foo site:bar.org'' = p @ ''site:'' @ r)"
proof -
  have a: "webRequest echoEnv ''foo'' (JNum 5) (JNum 1) (JStr ''example.com'')
     = Inr \<lparr>param_key = ''key'', param_cx = ''cx'', param_q = ''foo site:example.com'',
            param_num = ''5'', param_start = ''1'', param_searchType = None\<rparr>"
    by (simp add: webRequest_def numParam_def searchQuery_def echoEnv_def showInt_def
        showNat.simps digitChar_def)
  have b: "webRequest echoEnv ''foo site:bar.org'' (JNum 5) (JNum 1) (JStr ''example.com'')
     = Inr \<lparr>param_key = ''key'', param_cx = ''cx'', param_q = ''foo site:bar.org'',
            param_num = ''5'', param_start = ''1'', param_searchType = None\<rparr>"
    by (simp add: webRequest_def numParam_def searchQuery_def echoEnv_def showInt_def
        showNat.simps digitChar_def)
  have "''foo site:example.com'' =
     (if ''example.com'' \<noteq> [] \<and> \<not> (\<exists>p r. ''foo'' = p @ ''site:'' @ r)
      then ''foo'' @ '' site:'' @ ''example.com'' else ''foo'')"
    using site_restriction [OF a] by simp
  then have c: "\<not> (\<exists>p r. ''foo'' = p @ ''site:'' @ r)"
    by (simp split: if_splits)
  have "''foo site:bar.org'' =
     (if ''example.com'' \<noteq> [] \<and> \<not> (\<exists>p r. ''foo site:bar.org'' = p @ ''site:'' @ r)
      then ''foo site:bar.org'' @ '' site:'' @ ''example.com'' else ''foo site:bar.org'')"
    using site_restriction [OF b] by simp
  then have d: "\<exists>p r. ''foo site:bar.org'' = p @ ''site:'' @ r"
    by (simp split: if_splits)
  from a b c d show ?thesis by (simp only: simp_thms)
qed

text \<open>
  Counterexample to claim C9 as stated: for an unknown tool name the result is an error
  result whose text is \<open>Unknown tool: \<close> followed by the name; it names neither of the two
  known tools.
\<close>

theorem unknown_tool_names_no_tool:
  "callToolHandler echoEnv ''web_search'' (Some Map.empty) (initialCount 0 0)
     = (\<lparr>result_text = ''Unknown tool: web_search'', result_isError = True\<rparr>, initialCount 0 0)
   \<and> \<not> includes_js ''Unknown tool: web_search'' ''google_web_search''
   \<and> \<not> includes_js ''Unknown tool: web_search'' ''google_image_search''"
  by (simp add: callToolHandler_def tryBlock_def)

text \<open>
  Claim C9, as amended. The handler returns a result for every tool name and every argument
  bag. Whatever the \<^verbatim>\<open>try\<close> block throws is caught and returned as the text \<open>Error: \<close>
  followed by the message of the error, with \<open>isError: true\<close>: a missing argument object, a
  failed validation, and every error a search raises (rate limit, request building,
  upstream). For a tool name that is neither of the two known names, with an argument object
  present, the result is the text \<open>Unknown tool: \<close> followed by the name, with
  \<open>isError: true\<close> and the counters untouched. A result with \<open>isError: false\<close> comes from one
  of the two known tools only.
\<close>

theorem handler_catches:
  "(\<forall>err rc'. tryBlock e name arguments rc = (Inl err, rc') \<longrightarrow>
      callToolHandler e name arguments rc
        = (\<lparr>result_text = ''Error: '' @ message err, result_isError = True\<rparr>, rc'))
   \<and> (arguments = None \<longrightarrow>
      callToolHandler e name arguments rc
        = (\<lparr>result_text = ''Error: No arguments provided'', result_isError = True\<rparr>, rc))
   \<and> (\<forall>args query err rc'.
        arguments = Some args \<and> args ''query'' = Some (JStr query)
        \<and> name = ''google_web_search''
        \<and> performWebSearch e query (argOr args ''count'' (JNum 5))
             (argOr args ''start'' (JNum 1)) (argOr args ''site'' (JStr [])) rc = (Inl err, rc')
        \<longrightarrow> callToolHandler e name arguments rc
             = (\<lparr>result_text = ''Error: '' @ message err, result_isError = True\<rparr>, rc'))
   \<and> (\<forall>args query err rc'.
        arguments = Some args \<and> args ''query'' = Some (JStr query)
        \<and> name = ''google_image_search''
        \<and> performImageSearch e query (argOr args ''count'' (JNum 5))
             (argOr args ''start'' (JNum 1)) rc = (Inl err, rc')
        \<longrightarrow> callToolHandler e name arguments rc
             = (\<lparr>result_text = ''Error: '' @ message err, result_isError = True\<rparr>, rc'))
   \<and> (name \<noteq> ''google_web_search'' \<and> name \<noteq> ''google_image_search'' \<and> arguments \<noteq> None \<longrightarrow>
      callToolHandler e name arguments rc
        = (\<lparr>result_text = ''Unknown tool: '' @ name, result_isError = True\<rparr>, rc))
   \<and> ((\<exists>err. fst (callToolHandler e name arguments rc)
              = \<lparr>result_text = ''Error: '' @ message err, result_isError = True\<rparr>)
      \<or> fst (callToolHandler e name arguments rc)
              = \<lparr>result_text = ''Unknown tool: '' @ name, result_isError = True\<rparr>
      \<or> (\<exists>results. fst (callToolHandler e name arguments rc)
              = \<lparr>result_text = results, result_isError = False\<rparr>
           \<and> (name = ''google_web_search'' \<or> name = ''google_image_search'')))"
proof -
  have thrown: "callToolHandler e name arguments rc
        = (\<lparr>result_text = ''Error: '' @ message err, result_isError = True\<rparr>, rc')"
    if "tryBlock e name arguments rc = (Inl err, rc')" for err rc'
    using that by (simp add: callToolHandler_def)
  have none: "callToolHandler e name arguments rc
        = (\<lparr>result_text = ''Error: No arguments provided'', result_isError = True\<rparr>, rc)"
    if "arguments = None"
    using that by (simp add: callToolHandler_def tryBlock_def)
  have web: "callToolHandler e name arguments rc
             = (\<lparr>result_text = ''Error: '' @ message err, result_isError = True\<rparr>, rc')"
    if "arguments = Some args" "args ''query'' = Some (JStr query)" "name = ''google_web_search''"
      "performWebSearch e query (argOr args ''count'' (JNum 5))
             (argOr args ''start'' (JNum 1)) (argOr args ''site'' (JStr [])) rc = (Inl err, rc')"
    for args query err rc'
    using handler_web [of args query e rc] that by (simp add: answer_def)
  have image: "callToolHandler e name arguments rc
             = (\<lparr>result_text = ''Error: '' @ message err, result_isError = True\<rparr>, rc')"
    if "arguments = Some args" "args ''query'' = Some (JStr query)" "name = ''google_image_search''"
      "performImageSearch e query (argOr args ''count'' (JNum 5))
             (argOr args ''start'' (JNum 1)) rc = (Inl err, rc')"
    for args query err rc'
    using handler_image [of args query e rc] that by (simp add: answer_def)
  have unknown: "callToolHandler e name arguments rc
        = (\<lparr>result_text = ''Unknown tool: '' @ name, result_isError = True\<rparr>, rc)"
    if "name \<noteq> ''google_web_search''" "name \<noteq> ''google_image_search''" "arguments \<noteq> None"
  proof -
    from that(3) obtain args where "arguments = Some args" by blast
    then show ?thesis
      using tryBlock_unknown [of name e args rc, OF that(1,2)] by (simp add: callToolHandler_def)
  qed
  have shape: "(\<exists>err. fst (callToolHandler e name arguments rc)
              = \<lparr>result_text = ''Error: '' @ message err, result_isError = True\<rparr>)
      \<or> fst (callToolHandler e name arguments rc)
              = \<lparr>result_text = ''Unknown tool: '' @ name, result_isError = True\<rparr>
      \<or> (\<exists>results. fst (callToolHandler e name arguments rc)
              = \<lparr>result_text = results, result_isError = False\<rparr>
           \<and> (name = ''google_web_search'' \<or> name = ''google_image_search''))"
  proof (cases "tryBlock e name arguments rc")
    case (Pair r rc')
    show ?thesis
    proof (cases r)
      case (Inl err)
      then show ?thesis using thrown [of err rc'] Pair by auto
    next
      case (Inr res)
      have h: "fst (callToolHandler e name arguments rc) = res"
        using Pair Inr by (simp add: callToolHandler_def)
      have "res = \<lparr>result_text = ''Unknown tool: '' @ name, result_isError = True\<rparr>
          \<or> (\<exists>results. res = \<lparr>result_text = results, result_isError = False\<rparr>
             \<and> (name = ''google_web_search'' \<or> name = ''google_image_search''))"
        using Pair Inr tryBlock_Inr [of e name arguments rc res rc'] by simp
      then show ?thesis unfolding h by blast
    qed
  qed
  show ?thesis
  proof (intro conjI allI impI)
    fix err rc' assume "tryBlock e name arguments rc = (Inl err, rc')"
    then show "callToolHandler e name arguments rc
        = (\<lparr>result_text = ''Error: '' @ message err, result_isError = True\<rparr>, rc')"
      by (rule thrown)
  next
    assume "arguments = None"
    then show "callToolHandler e name arguments rc
        = (\<lparr>result_text = ''Error: No arguments provided'', result_isError = True\<rparr>, rc)"
      by (rule none)
  next
    fix args query err rc'
    assume "arguments = Some args \<and> args ''query'' = Some (JStr query)
        \<and> name = ''google_web_search''
        \<and> performWebSearch e query (argOr args ''count'' (JNum 5))
             (argOr args ''start'' (JNum 1)) (argOr args ''site'' (JStr [])) rc = (Inl err, rc')"
    then show "callToolHandler e name arguments rc
             = (\<lparr>result_text = ''Error: '' @ message err, result_isError = True\<rparr>, rc')"
      using web [of args query err rc'] by (elim conjE)
  next
    fix args query err rc'
    assume "arguments = Some args \<and> args ''query'' = Some (JStr query)
        \<and> name = ''google_image_search''
        \<and> performImageSearch e query (argOr args ''count'' (JNum 5))
             (argOr args ''start'' (JNum 1)) rc = (Inl err, rc')"
    then show "callToolHandler e name arguments rc
             = (\<lparr>result_text = ''Error: '' @ message err, result_isError = True\<rparr>, rc')"
      using image [of args query err rc'] by (elim conjE)
  next
    assume "name \<noteq> ''google_web_search'' \<and> name \<noteq> ''google_image_search'' \<and> arguments \<noteq> None"
    then show "callToolHandler e name arguments rc
        = (\<lparr>result_text = ''Unknown tool: '' @ name, result_isError = True\<rparr>, rc)"
      using unknown by (elim conjE)
  next
    show "(\<exists>err. fst (callToolHandler e name arguments rc)
              = \<lparr>result_text = ''Error: '' @ message err, result_isError = True\<rparr>)
      \<or> fst (callToolHandler e name arguments rc)
              = \<lparr>result_text = ''Unknown tool: '' @ name, result_isError = True\<rparr>
      \<or> (\<exists>results. fst (callToolHandler e name arguments rc)
              = \<lparr>result_text = results, result_isError = False\<rparr>
           \<and> (name = ''google_web_search'' \<or> name = ''google_image_search''))"
      by (rule shape)
  qed
qed

theorem handler_catches_witness:
  "tryBlock echoEnv ''google_web_search'' (Some [''query'' \<mapsto> JStr ''foo''])
       \<lparr>daily = 5, second = 5, lastSecondReset = 0, lastDayReset = 0\<rparr>
     = (Inl RateLimitExceeded, \<lparr>daily = 5, second = 5, lastSecondReset = 0, lastDayReset = 0\<rparr>)
   \<and> callToolHandler echoEnv ''google_web_search'' (Some [''query'' \<mapsto> JStr ''foo''])
       \<lparr>daily = 5, second = 5, lastSecondReset = 0, lastDayReset = 0\<rparr>
     = (\<lparr>result_text = ''Error: Rate limit exceeded'', result_isError = True\<rparr>,
        \<lparr>daily = 5, second = 5, lastSecondReset = 0, lastDayReset = 0\<rparr>)
   \<and> callToolHandler echoEnv ''google_web_search'' None (initialCount 0 0)
     = (\<lparr>result_text = ''Error: No arguments provided'', result_isError = True\<rparr>,
        initialCount 0 0)
   \<and> callToolHandler echoEnv ''search'' (Some [''query'' \<mapsto> JStr ''foo'']) (initialCount 0 0)
     = (\<lparr>result_text = ''Unknown tool: search'', result_isError = True\<rparr>, initialCount 0 0)"
proof -
  let ?rc = "\<lparr>daily = 5, second = 5, lastSecondReset = 0, lastDayReset = 0\<rparr>"
  have a: "tryBlock echoEnv ''google_web_search'' (Some [''query'' \<mapsto> JStr ''foo'']) ?rc
     = (Inl RateLimitExceeded, ?rc)"
    by (simp add: tryBlock_def isGoogleWebSearchArgs_def searched_def performWebSearch_def
        checkRateLimit_def echoEnv_def perSecond_def perDay_def)
  have "callToolHandler echoEnv ''google_web_search'' (Some [''query'' \<mapsto> JStr ''foo'']) ?rc
     = (\<lparr>result_text = ''Error: '' @ message RateLimitExceeded, result_isError = True\<rparr>, ?rc)"
    by (rule handler_catches [of echoEnv "''google_web_search''"
          "Some [''query'' \<mapsto> JStr ''foo'']" ?rc,
          THEN conjunct1, THEN spec, THEN spec, THEN mp, OF a])
  then have b: "callToolHandler echoEnv ''google_web_search'' (Some [''query'' \<mapsto> JStr ''foo'']) ?rc
     = (\<lparr>result_text = ''Error: Rate limit exceeded'', result_isError = True\<rparr>, ?rc)"
    by simp
  have c: "callToolHandler echoEnv ''google_web_search'' None (initialCount 0 0)
     = (\<lparr>result_text = ''Error: No arguments provided'', result_isError = True\<rparr>,
        initialCount 0 0)"
    by (rule handler_catches [of echoEnv "''google_web_search''" None "initialCount 0 0",
          THEN conjunct2, THEN conjunct1, THEN mp, OF refl])
  have "''search'' \<noteq> ''google_web_search'' \<and> ''search'' \<noteq> ''google_image_search''
      \<and> Some [''query'' \<mapsto> JStr ''foo''] \<noteq> None"
    by simp
  then have "callToolHandler echoEnv ''search'' (Some [''query'' \<mapsto> JStr ''foo'']) (initialCount 0 0)
     = (\<lparr>result_text = ''Unknown tool: '' @ ''search'', result_isError = True\<rparr>,
        initialCount 0 0)"
    by (rule handler_catches [of echoEnv "''search''" "Some [''query'' \<mapsto> JStr ''foo'']"
          "initialCount 0 0",
          THEN conjunct2, THEN conjunct2, THEN conjunct2, THEN conjunct2, THEN conjunct1, THEN mp])
  then have d: "callToolHandler echoEnv ''search'' (Some [''query'' \<mapsto> JStr ''foo'']) (initialCount 0 0)
     = (\<lparr>result_text = ''Unknown tool: search'', result_isError = True\<rparr>, initialCount 0 0)"
    by simp
  from a b c d show ?thesis by (simp only: simp_thms)
qed

text \<open>
  Counterexample to claim C10 as stated: with a string \<open>query\<close> and \<open>start: null\<close> the call
  passes validation and consumes quota, but the value does not reach the upstream:
  \<^verbatim>\<open>start.toString()\<close> throws while the URL is built.
\<close>

theorem null_start_raises:
  "isGoogleWebSearchArgs [''query'' \<mapsto> JStr ''foo'', ''start'' \<mapsto> JNull]
   \<and> callToolHandler echoEnv ''google_web_search''
         (Some [''query'' \<mapsto> JStr ''foo'', ''start'' \<mapsto> JNull]) (initialCount 0 0)
       = (\<lparr>result_text = ''Error: Cannot read properties of null (reading 'toString')'',
           result_isError = True\<rparr>,
          \<lparr>daily = 1, second = 1, lastSecondReset = 0, lastDayReset = 0\<rparr>)"
  by (simp add: isGoogleWebSearchArgs_def callToolHandler_def tryBlock_def searched_def
      performWebSearch_def checkRateLimit_def initialCount_def perSecond_def perDay_def
      echoEnv_def argOr_def webRequest_def)

text \<open>
  Claim C10, as amended. Validation for both tools accepts an argument bag exactly when its
  \<open>query\<close> is a string, so with no check on \<open>count\<close>, \<open>start\<close> or \<open>site\<close>. For every bag with a
  string \<open>query\<close> the call runs the rate-limit check, and when it is admitted (quota consumed)
  and \<open>start\<close> is not \<open>null\<close>, the upstream is called with a request built from the unchecked
  values: \<open>num\<close> is the text of \<^verbatim>\<open>Math.min(count, 10)\<close>, \<open>start\<close> is the text of \<open>start\<close>, and
  for the web search the query text is built from \<open>site\<close>; the answer of the handler is the
  answer to that reply. The text of \<^verbatim>\<open>Math.min(count, 10)\<close> is the runtime's text of the
  number \<^verbatim>\<open>Math.min\<close> gives for the runtime's conversion of \<open>count\<close> to a number: of a string
  the runtime's reading of it, of \<open>true\<close> 1, of \<open>false\<close> and of \<open>null\<close> 0.
\<close>

theorem unchecked_values_flow:
  "(isGoogleWebSearchArgs args \<longleftrightarrow> (\<exists>s. args ''query'' = Some (JStr s)))
   \<and> (isGoogleImageSearchArgs args \<longleftrightarrow> (\<exists>s. args ''query'' = Some (JStr s)))
   \<and> (\<forall>query. args ''query'' = Some (JStr query) \<longrightarrow>
        snd (callToolHandler e ''google_web_search'' (Some args) rc)
          = snd (checkRateLimit (dateNow e) (dateTodayStart e) rc)
      \<and> snd (callToolHandler e ''google_image_search'' (Some args) rc)
          = snd (checkRateLimit (dateNow e) (dateTodayStart e) rc)
      \<and> (fst (checkRateLimit (dateNow e) (dateTodayStart e) rc) = Inr ()
          \<and> argOr args ''start'' (JNum 1) \<noteq> JNull \<longrightarrow>
          callToolHandler e ''google_web_search'' (Some args) rc
            = answer (readReply e formatWebItems (fetch e
                \<lparr>param_key = GOOGLE_API_KEY e, param_cx = GOOGLE_CSE_ID e,
                 param_q = searchQuery e query (argOr args ''site'' (JStr [])),
                 param_num = numParam e (argOr args ''count'' (JNum 5)),
                 param_start = templateString e (argOr args ''start'' (JNum 1)),
                 param_searchType = None\<rparr>),
                snd (checkRateLimit (dateNow e) (dateTodayStart e) rc))
        \<and> callToolHandler e ''google_image_search'' (Some args) rc
            = answer (readReply e formatImageItems (fetch e
                \<lparr>param_key = GOOGLE_API_KEY e, param_cx = GOOGLE_CSE_ID e,
                 param_q = query,
                 param_num = numParam e (argOr args ''count'' (JNum 5)),
                 param_start = templateString e (argOr args ''start'' (JNum 1)),
                 param_searchType = Some ''image''\<rparr>),
                snd (checkRateLimit (dateNow e) (dateTodayStart e) rc))))
   \<and> (\<forall>s. numParam e (JStr s) = numberToString e (mathMin (stringToNumber e s) (Finite 10)))
   \<and> (\<forall>b. numParam e (JBool b) = numberToString e (Finite (if b then 1 else 0)))
   \<and> numParam e JNull = numberToString e (Finite 0)"
proof (intro conjI allI impI)
  show "isGoogleWebSearchArgs args \<longleftrightarrow> (\<exists>s. args ''query'' = Some (JStr s))"
    by (rule isGoogleWebSearchArgs_iff)
  show "isGoogleImageSearchArgs args \<longleftrightarrow> (\<exists>s. args ''query'' = Some (JStr s))"
    by (rule isGoogleImageSearchArgs_iff)
next
  fix query assume q: "args ''query'' = Some (JStr query)"
  show "snd (callToolHandler e ''google_web_search'' (Some args) rc)
        = snd (checkRateLimit (dateNow e) (dateTodayStart e) rc)"
    unfolding handler_web [of args query e rc, OF q]
    by (simp only: snd_answer snd_performWebSearch)
  show "snd (callToolHandler e ''google_image_search'' (Some args) rc)
        = snd (checkRateLimit (dateNow e) (dateTodayStart e) rc)"
    unfolding handler_image [of args query e rc, OF q]
    by (simp only: snd_answer snd_performImageSearch)
  assume h: "fst (checkRateLimit (dateNow e) (dateTodayStart e) rc) = Inr ()
          \<and> argOr args ''start'' (JNum 1) \<noteq> JNull"
  then have adm: "fst (checkRateLimit (dateNow e) (dateTodayStart e) rc) = Inr ()"
    and st: "argOr args ''start'' (JNum 1) \<noteq> JNull"
    by simp_all
  show "callToolHandler e ''google_web_search'' (Some args) rc
            = answer (readReply e formatWebItems (fetch e
                \<lparr>param_key = GOOGLE_API_KEY e, param_cx = GOOGLE_CSE_ID e,
                 param_q = searchQuery e query (argOr args ''site'' (JStr [])),
                 param_num = numParam e (argOr args ''count'' (JNum 5)),
                 param_start = templateString e (argOr args ''start'' (JNum 1)),
                 param_searchType = None\<rparr>),
                snd (checkRateLimit (dateNow e) (dateTodayStart e) rc))"
    by (rule handler_web_upstream [of args query e rc, OF q adm st])
  show "callToolHandler e ''google_image_search'' (Some args) rc
            = answer (readReply e formatImageItems (fetch e
                \<lparr>param_key = GOOGLE_API_KEY e, param_cx = GOOGLE_CSE_ID e,
                 param_q = query,
                 param_num = numParam e (argOr args ''count'' (JNum 5)),
                 param_start = templateString e (argOr args ''start'' (JNum 1)),
                 param_searchType = Some ''image''\<rparr>),
                snd (checkRateLimit (dateNow e) (dateTodayStart e) rc))"
    by (rule handler_image_upstream [of args query e rc, OF q adm st])
next
  fix s
  show "numParam e (JStr s) = numberToString e (mathMin (stringToNumber e s) (Finite 10))"
    by (simp add: numParam_def)
next
  fix b
  show "numParam e (JBool b) = numberToString e (Finite (if b then 1 else 0))"
    by (simp add: numParam_def)
next
  show "numParam e JNull = numberToString e (Finite 0)"
    by (simp add: numParam_def)
qed

theorem unchecked_values_flow_witness:
  "[''query'' \<mapsto> JStr ''foo'', ''count'' \<mapsto> JStr ''abc'', ''start'' \<mapsto> JBool True] ''query''
     = Some (JStr ''foo'')
   \<and> fst (checkRateLimit (dateNow echoEnv) (dateTodayStart echoEnv) (initialCount 0 0)) = Inr ()
   \<and> callToolHandler echoEnv ''google_web_search''
        (Some [''query'' \<mapsto> JStr ''foo'', ''count'' \<mapsto> JStr ''abc'', ''start'' \<mapsto> JBool True])
        (initialCount 0 0)
      = (\<lparr>result_text = ''[1] Title: foo'' @ nl @ ''Description: NaN'' @ nl @ ''URL: true'',
          result_isError = False\<rparr>,
         \<lparr>daily = 1, second = 1, lastSecondReset = 0, lastDayReset = 0\<rparr>)
   \<and> callToolHandler echoEnv ''google_image_search''
        (Some [''query'' \<mapsto> JStr ''foo'', ''count'' \<mapsto> JStr ''abc'', ''start'' \<mapsto> JBool True])
        (initialCount 0 0)
      = (\<lparr>result_text = ''[1] Title: foo'' @ nl @ ''Description: NaN'' @ nl
                          @ ''Image URL: true'' @ nl,
          result_isError = False\<rparr>,
         \<lparr>daily = 1, second = 1, lastSecondReset = 0, lastDayReset = 0\<rparr>)"
proof -
  let ?args = "[''query'' \<mapsto> JStr ''foo'', ''count'' \<mapsto> JStr ''abc'', ''start'' \<mapsto> JBool True]"
  let ?rc' = "snd (checkRateLimit (dateNow echoEnv) (dateTodayStart echoEnv) (initialCount 0 0))"
  have a: "?args ''query'' = Some (JStr ''foo'')"
    by simp
  have b: "fst (checkRateLimit (dateNow echoEnv) (dateTodayStart echoEnv) (initialCount 0 0)) = Inr ()"
    by (simp add: checkRateLimit_def echoEnv_def initialCount_def perSecond_def perDay_def)
  have rc': "?rc' = \<lparr>daily = 1, second = 1, lastSecondReset = 0, lastDayReset = 0\<rparr>"
    by (simp add: checkRateLimit_def echoEnv_def initialCount_def perSecond_def perDay_def)
  have c: "argOr ?args ''start'' (JNum 1) \<noteq> JNull"
    by (simp add: argOr_def)
  have vals: "argOr ?args ''count'' (JNum 5) = JStr ''abc''"
    "argOr ?args ''start'' (JNum 1) = JBool True"
    "argOr ?args ''site'' (JStr []) = JStr []"
    by (simp_all add: argOr_def)
  note th = unchecked_values_flow [of ?args echoEnv "initialCount 0 0",
      THEN conjunct2, THEN conjunct2, THEN conjunct1, THEN spec, of "''foo''", THEN mp, OF a]
  note flow = th [THEN conjunct2, THEN conjunct2, THEN mp, OF conjI, OF b c]
  have nan: "numParam echoEnv (JStr ''abc'') = ''NaN''"
    using unchecked_values_flow [of ?args echoEnv "initialCount 0 0",
      THEN conjunct2, THEN conjunct2, THEN conjunct2, THEN conjunct1, THEN spec, of "''abc''"]
    by (simp add: echoEnv_def)
  have "callToolHandler echoEnv ''google_web_search'' (Some ?args) (initialCount 0 0)
      = answer (readReply echoEnv formatWebItems (fetch echoEnv
              \<lparr>param_key = GOOGLE_API_KEY echoEnv, param_cx = GOOGLE_CSE_ID echoEnv,
               param_q = searchQuery echoEnv ''foo'' (argOr ?args ''site'' (JStr [])),
               param_num = numParam echoEnv (argOr ?args ''count'' (JNum 5)),
               param_start = templateString echoEnv (argOr ?args ''start'' (JNum 1)),
               param_searchType = None\<rparr>),
              ?rc')"
    by (rule flow [THEN conjunct1])
  also have "\<dots> = (\<lparr>result_text = ''[1] Title: foo'' @ nl @ ''Description: NaN'' @ nl @ ''URL: true'',
          result_isError = False\<rparr>,
         \<lparr>daily = 1, second = 1, lastSecondReset = 0, lastDayReset = 0\<rparr>)"
    unfolding rc' vals nan
    by (simp add: answer_def readReply_def echoEnv_def echoFetch_def searchQuery_def
        formatWebItems_def enumerate_eq_zip webBlock_def showNat.simps digitChar_def)
  finally have web: "callToolHandler echoEnv ''google_web_search'' (Some ?args) (initialCount 0 0)
      = (\<lparr>result_text = ''[1] Title: foo'' @ nl @ ''Description: NaN'' @ nl @ ''URL: true'',
          result_isError = False\<rparr>,
         \<lparr>daily = 1, second = 1, lastSecondReset = 0, lastDayReset = 0\<rparr>)" .
  have "callToolHandler echoEnv ''google_image_search'' (Some ?args) (initialCount 0 0)
      = answer (readReply echoEnv formatImageItems (fetch echoEnv
              \<lparr>param_key = GOOGLE_API_KEY echoEnv, param_cx = GOOGLE_CSE_ID echoEnv,
               param_q = ''foo'',
               param_num = numParam echoEnv (argOr ?args ''count'' (JNum 5)),
               param_start = templateString echoEnv (argOr ?args ''start'' (JNum 1)),
               param_searchType = Some ''image''\<rparr>),
              ?rc')"
    by (rule flow [THEN conjunct2])
  also have "\<dots> = (\<lparr>result_text = ''[1] Title: foo'' @ nl @ ''Description: NaN'' @ nl
                          @ ''Image URL: true'' @ nl,
          result_isError = False\<rparr>,
         \<lparr>daily = 1, second = 1, lastSecondReset = 0, lastDayReset = 0\<rparr>)"
    unfolding rc' vals nan
    by (simp add: answer_def readReply_def echoEnv_def echoFetch_def
        formatImageItems_def enumerate_eq_zip imageBlock_def showNat.simps digitChar_def)
  finally have image: "callToolHandler echoEnv ''google_image_search'' (Some ?args) (initialCount 0 0)
      = (\<lparr>result_text = ''[1] Title: foo'' @ nl @ ''Description: NaN'' @ nl
                          @ ''Image URL: true'' @ nl,
          result_isError = False\<rparr>,
         \<lparr>daily = 1, second = 1, lastSecondReset = 0, lastDayReset = 0\<rparr>)" .
  from a b web image show ?thesis by (simp only: simp_thms)
qed

end
